theory Spec2Isabelle
  imports Complex_Main "HOL-Library.Multiset"
begin

section \<open>Data model (src/models/types.ts, src/config/constants.ts)\<close>

text \<open>
  JavaScript numbers that hold scores, counters, timestamps and the coordinates of board
  cells are modelled as \<open>int\<close>; array indices and lengths as \<open>nat\<close>. The coordinates
  of a placement arrive in a message and may be any number: they are \<open>rat\<close>. Strings
  are \<open>char list\<close>.
  Field names that would clash with HOL constants or with a field of another record carry
  a short prefix (\<open>tile_id\<close> for \<open>Tile.id\<close>, \<open>px\<close>/\<open>py\<close> for \<open>MovePlacement.x/y\<close>).
\<close>

datatype RoomStatus = Waiting | Playing | Finished

datatype BonusType = DL | TL | DW | TW

datatype Action = Play | Pass | Exchange

record PlayerStats =
  wordsPlayed :: int
  bestWordScore :: int
  bestWord :: "string option"
  totalTurns :: int
  passes :: int

record Tile =
  tile_id :: string
  letter :: string
  tile_value :: int
  isJoker :: bool

record TileOnBoard = Tile +
  fromPlayerId :: string
  turnPlayed :: int

record BoardCell =
  cx :: int
  cy :: int
  bonus :: "BonusType option"
  tile :: "TileOnBoard option"
  bonusUsed :: bool

record MovePlacement =
  px :: rat
  py :: rat
  tileId :: string

text \<open>
  Whether a coordinate is an integer, and the column and row a placement names once its
  coordinates are known to be integers (after the first validation loop of a play).
\<close>

definition isInteger :: "rat \<Rightarrow> bool" where
  "isInteger q \<longleftrightarrow> of_int \<lfloor>q\<rfloor> = q"

definition cellX :: "MovePlacement \<Rightarrow> int" where
  "cellX pl = \<lfloor>px pl\<rfloor>"

definition cellY :: "MovePlacement \<Rightarrow> int" where
  "cellY pl = \<lfloor>py pl\<rfloor>"

record MoveSummary =
  ms_playerId :: string
  ms_action :: Action
  ms_words :: "string list"
  ms_score :: int
  ms_placements :: "MovePlacement list"
  turnNumber :: int
  createdAt :: int

record Player =
  player_id :: string
  nickname :: string
  connected :: bool
  ready :: bool
  score :: int
  rack :: "Tile list"
  stats :: PlayerStats
  connectionId :: "string option"

record GameState =
  board :: "BoardCell list list"
  bag :: "Tile list"
  turnIndex :: nat
  activePlayerId :: string
  turnEndsAt :: int
  turnDurationMs :: int
  lastMove :: "MoveSummary option"
  game_log :: "MoveSummary list"
  consecutivePasses :: int
  startedAt :: int
  version :: int

record Room =
  room_id :: string
  hostId :: string
  status :: RoomStatus
  maxPlayers :: int
  players :: "Player list"
  game :: "GameState option"
  lastActivityAt :: int

definition TURN_DURATION_MS :: int where
  "TURN_DURATION_MS = 120000"

definition MAX_CONSECUTIVE_PASSES :: int where
  "MAX_CONSECUTIVE_PASSES = 6"

section \<open>Dictionary (src/services/WordValidator.ts, class WordValidatorFile)\<close>

text \<open>
  Strings are modelled as ASCII: \<open>toUpperCase\<close> maps \<open>a..z\<close> to \<open>A..Z\<close> and
  leaves every other character alone; \<open>trim\<close> strips space, tab, line feed, vertical tab,
  form feed and carriage return.
\<close>

definition upperChar :: "char \<Rightarrow> char" where
  "upperChar c =
     (if (97::nat) \<le> of_char c \<and> (of_char c :: nat) \<le> 122
      then char_of ((of_char c :: nat) - 32) else c)"

definition toUpperCase :: "string \<Rightarrow> string" where
  "toUpperCase s = map upperChar s"

definition isSpace :: "char \<Rightarrow> bool" where
  "isSpace c = ((of_char c :: nat) = 32 \<or> ((9::nat) \<le> of_char c \<and> (of_char c :: nat) \<le> 13))"

definition trim :: "string \<Rightarrow> string" where
  "trim s = rev (dropWhile isSpace (rev (dropWhile isSpace s)))"

text \<open>\<open>raw.split(/\r?\n/)\<close>: \<open>cur\<close> is the current piece, reversed.\<close>

fun splitLines :: "string \<Rightarrow> string \<Rightarrow> string list" where
  "splitLines cur [] = [rev cur]"
| "splitLines cur (c # cs) =
     (if c = CHR 0x0A
      then (case cur of
              [] \<Rightarrow> []
            | d # ds \<Rightarrow> if d = CHR 0x0D then rev ds else rev cur) # splitLines [] cs
      else splitLines (c # cur) cs)"

definition loadWords :: "string \<Rightarrow> string list" where
  "loadWords raw =
     map toUpperCase (filter (\<lambda>w. length w > 0) (map trim (splitLines [] raw)))"

record WordValidatorFile =
  byLength :: "nat \<rightharpoonup> string list"
  wv_ready :: bool

text \<open>The loop \<open>for (const w of words)\<close> that fills the buckets.\<close>

definition addWord :: "string \<Rightarrow> (nat \<rightharpoonup> string list) \<Rightarrow> (nat \<rightharpoonup> string list)" where
  "addWord w m =
     (let len = length w;
          arr = (case m len of Some a \<Rightarrow> a | None \<Rightarrow> [])
      in m(len \<mapsto> arr @ [w]))"

text \<open>
  The constructor. The argument is what \<open>fs.readFileSync\<close> gives: \<open>None\<close> when it
  throws (the file cannot be read), the file's text otherwise.
\<close>

definition newWordValidatorFile :: "string option \<Rightarrow> WordValidatorFile" where
  "newWordValidatorFile file =
     (case file of
        None \<Rightarrow> \<lparr>byLength = Map.empty, wv_ready = False\<rparr>
      | Some raw \<Rightarrow> \<lparr>byLength = fold addWord (loadWords raw) Map.empty, wv_ready = True\<rparr>)"

fun exactLookup :: "string list \<Rightarrow> string \<Rightarrow> bool" where
  "exactLookup [] W = False"
| "exactLookup (v # pool) W = (if v = W then True else exactLookup pool W)"

text \<open>
  The inner loop of the wildcard scan over the positions \<open>i\<close> of \<open>W\<close>; \<open>v[i]\<close> past
  the end of \<open>v\<close> is \<open>undefined\<close> in JavaScript and so differs from every character.
\<close>

fun matchesFrom :: "string \<Rightarrow> string \<Rightarrow> nat list \<Rightarrow> bool" where
  "matchesFrom W v [] = True"
| "matchesFrom W v (i # is) =
     (if W ! i = CHR ''?'' then matchesFrom W v is
      else if \<not> (i < length v \<and> v ! i = W ! i) then False
      else matchesFrom W v is)"

fun wildcardLookup :: "string list \<Rightarrow> string \<Rightarrow> bool" where
  "wildcardLookup [] W = False"
| "wildcardLookup (v # pool) W =
     (if matchesFrom W v [0..<length W] then True else wildcardLookup pool W)"

definition isWordValid :: "WordValidatorFile \<Rightarrow> string \<Rightarrow> bool" where
  "isWordValid d word =
     (if \<not> wv_ready d then False
      else let W = toUpperCase word in
        (case byLength d (length W) of
           None \<Rightarrow> False
         | Some pool \<Rightarrow>
             if CHR ''?'' \<notin> set W then exactLookup pool W else wildcardLookup pool W))"

section \<open>Game service helpers (GameService.ts)\<close>

text \<open>
  What a call reads from outside the program is a parameter: the injected
  \<open>WordValidator\<close>, the values of \<open>Math.floor(Math.random() * (i + 1))\<close> (indexed by
  the loop variable \<open>i\<close> of \<open>shuffle\<close>; the value lies in \<open>0..i\<close>, which the model
  enforces with \<open>mod\<close>), the identifiers \<open>tileId()\<close> returns (by call number) and the
  readings of \<open>Date.now()\<close> (by reading number within the call).
\<close>

record Env =
  wordValidator :: "string \<Rightarrow> bool"
  randomIndex :: "nat \<Rightarrow> nat"
  tileIds :: "nat \<Rightarrow> string"
  clock :: "nat \<Rightarrow> int"

text \<open>
  The errors \<open>startNewGame\<close> and \<open>playMove\<close> throw: one constructor for each message
  of a \<open>new Error(...)\<close>, and \<open>TYPE_ERROR\<close> for the \<open>TypeError\<close> the engine throws
  when a property of \<open>undefined\<close> is read.
\<close>

datatype error =
    NO_PLAYERS | NO_GAME | PLAYER_NOT_IN_ROOM | NOT_YOUR_TURN
  | NO_TILES_TO_EXCHANGE | BAG_TOO_SMALL | TILE_NOT_IN_RACK
  | NO_PLACEMENTS | OUT_OF_BOUNDS | CELL_OCCUPIED | DUPLICATE_TILE
  | NOT_ALIGNED | MUST_COVER_CENTER | NOT_CONTIGUOUS | NOT_CONNECTED
  | NO_WORD_FORMED | INVALID_WORD string | TYPE_ERROR

datatype Direction = Row | Col

text \<open>The span object \<open>buildMainWord\<close> returns: \<open>{x0, x1, y}\<close> for a row, \<open>{y0, y1, x}\<close> for a column.\<close>

datatype Span = RowSpan int int int | ColSpan int int int

record MainWord =
  mw_span :: Span
  mw_word :: string
  mw_connected :: bool
  mw_contiguous :: bool

record CrossWord =
  cw_word :: string
  cw_x0 :: int
  cw_x1 :: int
  cw_y0 :: int
  cw_y1 :: int
  cw_anchor :: "int \<times> int"

text \<open>The map \<open>placementInfo\<close>; its key \<open>`${x},${y}`\<close> is the pair of coordinates.\<close>

type_synonym PlacementInfo = "(int \<times> int) \<rightharpoonup> (int \<times> string)"

fun findIndex :: "('a \<Rightarrow> bool) \<Rightarrow> 'a list \<Rightarrow> nat option" where
  "findIndex P [] = None"
| "findIndex P (x # xs) =
     (if P x then Some 0 else (case findIndex P xs of None \<Rightarrow> None | Some i \<Rightarrow> Some (Suc i)))"

text \<open>\<open>shuffle\<close>: the loop \<open>for (i = arr.length - 1; i > 0; i--)\<close>, from \<open>i\<close> downwards.\<close>

fun shuffleFrom :: "(nat \<Rightarrow> nat) \<Rightarrow> nat \<Rightarrow> 'a list \<Rightarrow> 'a list" where
  "shuffleFrom rnd 0 arr = arr"
| "shuffleFrom rnd (Suc i) arr =
     (let j = rnd (Suc i) mod (Suc i + 1)
      in shuffleFrom rnd i (arr[Suc i := arr ! j, j := arr ! Suc i]))"

definition shuffle :: "(nat \<Rightarrow> nat) \<Rightarrow> 'a list \<Rightarrow> 'a list" where
  "shuffle rnd arr = shuffleFrom rnd (length arr - 1) arr"

text \<open>\<open>drawTiles(bag, n)\<close> returns the tiles drawn and the bag that is left (\<open>bag.pop()\<close> takes the last).\<close>

fun drawTiles :: "Tile list \<Rightarrow> nat \<Rightarrow> Tile list \<times> Tile list" where
  "drawTiles bg 0 = ([], bg)"
| "drawTiles bg (Suc n) =
     (if bg = [] then ([], bg)
      else (let (out, bg') = drawTiles (butlast bg) n in (last bg # out, bg')))"

definition boardIsEmpty :: "BoardCell list list \<Rightarrow> bool" where
  "boardIsEmpty b = list_all (\<lambda>row. list_all (\<lambda>c. tile c = None) row) b"

text \<open>\<open>board[y][x]\<close>, read only at coordinates already known to be on the board.\<close>

definition cellAt :: "BoardCell list list \<Rightarrow> int \<Rightarrow> int \<Rightarrow> BoardCell" where
  "cellAt b x y = b ! nat y ! nat x"

definition hasTile :: "BoardCell list list \<Rightarrow> int \<Rightarrow> int \<Rightarrow> bool" where
  "hasTile b x y = (tile (cellAt b x y) \<noteq> None)"

text \<open>
  The four loops \<open>while (a - 1 >= 0 && <tile at a - 1>) a--\<close> and
  \<open>while (b + 1 < 15 && <tile at b + 1>) b++\<close>, over the occupancy of the line.
\<close>

function expandLow :: "(int \<Rightarrow> bool) \<Rightarrow> int \<Rightarrow> int" where
  "expandLow occ a = (if a - 1 \<ge> 0 \<and> occ (a - 1) then expandLow occ (a - 1) else a)"
  by pat_completeness auto
termination
  by (relation "measure (\<lambda>(occ, a). nat a)") auto

function expandHigh :: "(int \<Rightarrow> bool) \<Rightarrow> int \<Rightarrow> int" where
  "expandHigh occ b = (if b + 1 < 15 \<and> occ (b + 1) then expandHigh occ (b + 1) else b)"
  by pat_completeness auto
termination
  by (relation "measure (\<lambda>(occ, b). nat (15 - b))") auto

declare expandLow.simps [simp del]
declare expandHigh.simps [simp del]

text \<open>\<open>t.isJoker ? '?' : (t.letter || '')\<close> for a tile on the board.\<close>

definition boardTileText :: "TileOnBoard \<Rightarrow> string" where
  "boardTileText t = (if isJoker t then ''?'' else letter t)"

text \<open>
  \<open>(info?.letter ?? '') === '' ? '?' : (info?.letter || '#')\<close> for a placed tile: the
  second branch is taken with a non-empty letter only, so \<open>'#'\<close> never results.
\<close>

definition placedText :: "(int \<times> string) option \<Rightarrow> string" where
  "placedText info =
     (let l = (case info of Some (v, l) \<Rightarrow> l | None \<Rightarrow> [])
      in if l = [] then ''?'' else l)"

definition placedAt :: "MovePlacement list \<Rightarrow> int \<Rightarrow> int \<Rightarrow> MovePlacement option" where
  "placedAt pls x y = find (\<lambda>p. cellX p = x \<and> cellY p = y) pls"

definition rackTile :: "Tile list \<Rightarrow> string \<Rightarrow> Tile option" where
  "rackTile rk i = find (\<lambda>t. tile_id t = i) rk"

text \<open>
  The loop that fills \<open>placementInfo\<close>. \<open>player.rack.find(...)!\<close> is defined for every
  placement here, since the rack check has passed; the model skips a placement with no
  rack tile.
\<close>

definition buildPlacementInfo :: "Tile list \<Rightarrow> MovePlacement list \<Rightarrow> PlacementInfo" where
  "buildPlacementInfo rk pls =
     fold (\<lambda>pl m. case rackTile rk (tileId pl) of
                     Some t \<Rightarrow> m((cellX pl, cellY pl) \<mapsto> (tile_value t, letter t))
                   | None \<Rightarrow> m) pls Map.empty"

text \<open>The cells of a span, in loop order.\<close>

fun spanCells :: "Span \<Rightarrow> (int \<times> int) list" where
  "spanCells (RowSpan x0 x1 y) = map (\<lambda>x. (x, y)) [x0..x1]"
| "spanCells (ColSpan y0 y1 x) = map (\<lambda>y. (x, y)) [y0..y1]"

text \<open>First loop of \<open>buildMainWord\<close>: the word with gap markers, \<open>connected\<close>, \<open>contiguous\<close>.\<close>

definition mainStep ::
  "BoardCell list list \<Rightarrow> MovePlacement list \<Rightarrow> PlacementInfo \<Rightarrow> int \<times> int \<Rightarrow>
   string \<times> bool \<times> bool \<Rightarrow> string \<times> bool \<times> bool" where
  "mainStep b pls info c acc =
     (case acc of (w, conn, contig) \<Rightarrow>
        (case tile (cellAt b (fst c) (snd c)) of
           Some t \<Rightarrow> (w @ boardTileText t, True, contig)
         | None \<Rightarrow>
             (case placedAt pls (fst c) (snd c) of
                Some p \<Rightarrow> (w @ placedText (info c), conn, contig)
              | None \<Rightarrow> (w @ ''.'', conn, False))))"

text \<open>Second loop of \<open>buildMainWord\<close>: the letters that are joined into the word.\<close>

definition mainLetter ::
  "BoardCell list list \<Rightarrow> MovePlacement list \<Rightarrow> PlacementInfo \<Rightarrow> int \<times> int \<Rightarrow> string" where
  "mainLetter b pls info c =
     (case tile (cellAt b (fst c) (snd c)) of
        Some t \<Rightarrow> boardTileText t
      | None \<Rightarrow>
          (case placedAt pls (fst c) (snd c) of
             Some p \<Rightarrow> placedText (info c)
           | None \<Rightarrow> []))"

definition adjacentToTile :: "BoardCell list list \<Rightarrow> int \<Rightarrow> int \<Rightarrow> bool" where
  "adjacentToTile b x y =
     ((x > 0 \<and> hasTile b (x - 1) y) \<or> (x < 14 \<and> hasTile b (x + 1) y) \<or>
      (y > 0 \<and> hasTile b x (y - 1)) \<or> (y < 14 \<and> hasTile b x (y + 1)))"

definition mainSpan :: "BoardCell list list \<Rightarrow> MovePlacement list \<Rightarrow> Direction \<Rightarrow> Span" where
  "mainSpan b pls dir =
     (case dir of
        Row \<Rightarrow>
          (let y = cellY (hd pls); xs = sort (map cellX pls)
           in RowSpan (expandLow (\<lambda>x. hasTile b x y) (hd xs))
                      (expandHigh (\<lambda>x. hasTile b x y) (last xs)) y)
      | Col \<Rightarrow>
          (let x = cellX (hd pls); ys = sort (map cellY pls)
           in ColSpan (expandLow (\<lambda>y. hasTile b x y) (hd ys))
                      (expandHigh (\<lambda>y. hasTile b x y) (last ys)) x))"

definition buildMainWord ::
  "BoardCell list list \<Rightarrow> MovePlacement list \<Rightarrow> PlacementInfo \<Rightarrow> Direction \<Rightarrow> MainWord" where
  "buildMainWord b pls info dir =
     (let sp = mainSpan b pls dir;
          (w, conn, contig) = fold (mainStep b pls info) (spanCells sp) ([], False, True);
          contig' = (if CHR ''.'' \<in> set w then False else contig);
          conn' = (if \<not> conn
                   then (case dir of
                           Row \<Rightarrow> list_ex (\<lambda>p. adjacentToTile b (cellX p) (cellY (hd pls))) pls
                         | Col \<Rightarrow> list_ex (\<lambda>p. adjacentToTile b (cellX (hd pls)) (cellY p)) pls)
                   else conn);
          letters = map (mainLetter b pls info) (spanCells sp)
      in \<lparr>mw_span = sp, mw_word = concat letters, mw_connected = conn', mw_contiguous = contig'\<rparr>)"

text \<open>The letters of a cross word through the placement \<open>p\<close>.\<close>

definition crossLetter ::
  "BoardCell list list \<Rightarrow> PlacementInfo \<Rightarrow> bool \<Rightarrow> int \<times> int \<Rightarrow> string" where
  "crossLetter b info here c =
     (case tile (cellAt b (fst c) (snd c)) of
        Some t \<Rightarrow> boardTileText t
      | None \<Rightarrow> if here then placedText (info c) else [])"

definition crossWordAt ::
  "BoardCell list list \<Rightarrow> PlacementInfo \<Rightarrow> Direction \<Rightarrow> MovePlacement \<Rightarrow> CrossWord list" where
  "crossWordAt b info dir p =
     (case dir of
        Row \<Rightarrow>
          (let y0 = expandLow (\<lambda>y. hasTile b (cellX p) y) (cellY p);
               y1 = expandHigh (\<lambda>y. hasTile b (cellX p) y) (cellY p)
           in if y1 - y0 \<ge> 1
              then [\<lparr>cw_word = concat (map (\<lambda>y. crossLetter b info (y = cellY p) (cellX p, y)) [y0..y1]),
                     cw_x0 = cellX p, cw_x1 = cellX p, cw_y0 = y0, cw_y1 = y1,
                     cw_anchor = (cellX p, cellY p)\<rparr>]
              else [])
      | Col \<Rightarrow>
          (let x0 = expandLow (\<lambda>x. hasTile b x (cellY p)) (cellX p);
               x1 = expandHigh (\<lambda>x. hasTile b x (cellY p)) (cellX p)
           in if x1 - x0 \<ge> 1
              then [\<lparr>cw_word = concat (map (\<lambda>x. crossLetter b info (x = cellX p) (x, cellY p)) [x0..x1]),
                     cw_x0 = x0, cw_x1 = x1, cw_y0 = cellY p, cw_y1 = cellY p,
                     cw_anchor = (cellX p, cellY p)\<rparr>]
              else []))"

definition buildCrossWords ::
  "BoardCell list list \<Rightarrow> MovePlacement list \<Rightarrow> PlacementInfo \<Rightarrow> Direction \<Rightarrow> CrossWord list" where
  "buildCrossWords b pls info dir = concat (map (crossWordAt b info dir) pls)"

definition letterAndWordMultipliers :: "BoardCell \<Rightarrow> int \<times> int" where
  "letterAndWordMultipliers cell =
     (if bonus cell = None \<or> bonusUsed cell then (1, 1)
      else (case bonus cell of
              Some DL \<Rightarrow> (2, 1)
            | Some TL \<Rightarrow> (3, 1)
            | Some DW \<Rightarrow> (1, 2)
            | Some TW \<Rightarrow> (1, 3)
            | None \<Rightarrow> (1, 1)))"

definition getPlacementLetterValue :: "PlacementInfo \<Rightarrow> int \<Rightarrow> int \<Rightarrow> int" where
  "getPlacementLetterValue info x y = (case info (x, y) of Some (v, l) \<Rightarrow> v | None \<Rightarrow> 0)"

text \<open>
  The body of the four scoring loops (two in \<open>scoreWord\<close>, two in \<open>scoreCrossWord\<close>), which
  differ in the cells they run over only: the accumulator is \<open>(score, wordMultiplier)\<close>.
\<close>

definition scoreStep ::
  "BoardCell list list \<Rightarrow> MovePlacement list \<Rightarrow> PlacementInfo \<Rightarrow> int \<times> int \<Rightarrow>
   int \<times> int \<Rightarrow> int \<times> int" where
  "scoreStep b pls info c acc =
     (case acc of (sc, wm) \<Rightarrow>
        (let cell = cellAt b (fst c) (snd c);
             placed = placedAt pls (fst c) (snd c);
             letterVal = (case placed of
                            Some p \<Rightarrow> getPlacementLetterValue info (fst c) (snd c)
                          | None \<Rightarrow> (case tile cell of Some t \<Rightarrow> tile_value t | None \<Rightarrow> 0))
         in (case placed of
               Some p \<Rightarrow> (case letterAndWordMultipliers cell of
                            (letterMul, wordMul) \<Rightarrow> (sc + letterVal * letterMul, wm * wordMul))
             | None \<Rightarrow> (sc + letterVal, wm))))"

definition scoreCells ::
  "BoardCell list list \<Rightarrow> MovePlacement list \<Rightarrow> PlacementInfo \<Rightarrow> (int \<times> int) list \<Rightarrow> int" where
  "scoreCells b pls info cells =
     (case fold (scoreStep b pls info) cells (0, 1) of (sc, wm) \<Rightarrow> sc * wm)"

text \<open>\<open>scoreWord\<close> takes the branch of its \<open>dir\<close> and reads the span's fields of that branch.\<close>

definition scoreWord ::
  "BoardCell list list \<Rightarrow> MovePlacement list \<Rightarrow> PlacementInfo \<Rightarrow> Direction \<Rightarrow> MainWord \<Rightarrow> int" where
  "scoreWord b pls info dir main = scoreCells b pls info (spanCells (mw_span main))"

definition crossCells :: "CrossWord \<Rightarrow> (int \<times> int) list" where
  "crossCells cw =
     (if cw_x0 cw = cw_x1 cw
      then map (\<lambda>y. (cw_x0 cw, y)) [cw_y0 cw..cw_y1 cw]
      else map (\<lambda>x. (x, cw_y0 cw)) [cw_x0 cw..cw_x1 cw])"

definition scoreCrossWord ::
  "BoardCell list list \<Rightarrow> MovePlacement list \<Rightarrow> PlacementInfo \<Rightarrow> CrossWord \<Rightarrow> int" where
  "scoreCrossWord b pls info cw = scoreCells b pls info (crossCells cw)"

section \<open>GameService\<close>

definition buildMoveSummary ::
  "Env \<Rightarrow> Action \<Rightarrow> string \<Rightarrow> MovePlacement list \<Rightarrow> int \<Rightarrow> GameState \<Rightarrow> string list \<Rightarrow> MoveSummary" where
  "buildMoveSummary env act playerId pls sc g ws =
     \<lparr>ms_playerId = playerId, ms_action = act, ms_words = ws, ms_score = sc,
      ms_placements = pls, turnNumber = version g + 1, createdAt = clock env 0\<rparr>"

text \<open>
  \<open>advanceTurn\<close> and \<open>checkAndFinalizeIfEnded\<close> start with \<open>const game = room.game!\<close>;
  the model passes them the game object that assertion yields. \<open>advanceTurn\<close> writes the
  game only, so it returns the game. It is called with a non-empty player list only
  (the caller has found the mover in it), so the new index is within the list.
\<close>

definition advanceTurn :: "Env \<Rightarrow> Room \<Rightarrow> GameState \<Rightarrow> GameState" where
  "advanceTurn env room g =
     (let ti = (turnIndex g + 1) mod length (players room)
      in g\<lparr>turnIndex := ti,
            activePlayerId := player_id (players room ! ti),
            turnEndsAt := clock env 1 + turnDurationMs g,
            version := version g + 1\<rparr>)"

definition rackValue :: "Tile list \<Rightarrow> int" where
  "rackValue rk = fold (\<lambda>t acc. acc + tile_value t) rk 0"

text \<open>
  The final scoring loop \<open>for (const p of room.players)\<close>. \<open>fin\<close> is the index of the
  object \<open>finisher\<close> (the comparison \<open>p !== finisher\<close> is by identity), \<open>i\<close> the index of
  the player the loop is at, the last argument \<open>sumOthers\<close>.
\<close>

fun finalScores :: "nat option \<Rightarrow> nat \<Rightarrow> Player list \<Rightarrow> int \<Rightarrow> Player list \<times> int" where
  "finalScores fin i [] sumOthers = ([], sumOthers)"
| "finalScores fin i (p # ps) sumOthers =
     (let malus = rackValue (rack p);
          p' = p\<lparr>score := score p - malus\<rparr>;
          sumOthers' = (if Some i \<noteq> fin then sumOthers + malus else sumOthers);
          (ps', s) = finalScores fin (Suc i) ps sumOthers'
      in (p' # ps', s))"

definition checkAndFinalizeIfEnded :: "Room \<Rightarrow> GameState \<Rightarrow> Room \<times> bool" where
  "checkAndFinalizeIfEnded room g =
     (let anyEmptyRack = list_ex (\<lambda>p. length (rack p) = 0) (players room)
      in if (length (bag g) = 0 \<and> anyEmptyRack) \<or> consecutivePasses g \<ge> MAX_CONSECUTIVE_PASSES
         then (let finisher = findIndex (\<lambda>p. length (rack p) = 0) (players room);
                   (ps, sumOthers) = finalScores finisher 0 (players room) 0;
                   ps' = (case finisher of
                            Some f \<Rightarrow> ps[f := (ps ! f)\<lparr>score := score (ps ! f) + sumOthers\<rparr>]
                          | None \<Rightarrow> ps)
               in (room\<lparr>players := ps', status := Finished\<rparr>, True))
         else (room, False))"

text \<open>
  The common end of the three branches of \<open>playMove\<close>: \<open>advanceTurn\<close>, then
  \<open>checkAndFinalizeIfEnded\<close>, then the result \<open>{ move, ended }\<close>.
\<close>

definition finishMove ::
  "Env \<Rightarrow> Room \<Rightarrow> GameState \<Rightarrow> MoveSummary \<Rightarrow> Room \<times> (error + MoveSummary \<times> bool)" where
  "finishMove env room g move =
     (let g' = advanceTurn env room g;
          room' = room\<lparr>game := Some g'\<rparr>;
          (room'', ended) = checkAndFinalizeIfEnded room' g'
      in (room'', Inr (move, ended)))"

definition doPass ::
  "Env \<Rightarrow> Room \<Rightarrow> GameState \<Rightarrow> nat \<Rightarrow> string \<Rightarrow> Room \<times> (error + MoveSummary \<times> bool)" where
  "doPass env room g playerIdx playerId =
     (let player = players room ! playerIdx;
          player' = player\<lparr>stats := (stats player)\<lparr>passes := passes (stats player) + 1\<rparr>\<rparr>;
          g1 = g\<lparr>consecutivePasses := consecutivePasses g + 1\<rparr>;
          move = buildMoveSummary env Pass playerId [] 0 g1 [];
          g2 = g1\<lparr>lastMove := Some move, game_log := game_log g1 @ [move]\<rparr>
      in finishMove env (room\<lparr>players := (players room)[playerIdx := player']\<rparr>) g2 move)"

definition doExchange ::
  "Env \<Rightarrow> Room \<Rightarrow> GameState \<Rightarrow> nat \<Rightarrow> string \<Rightarrow> string list \<Rightarrow>
   Room \<times> (error + MoveSummary \<times> bool)" where
  "doExchange env room g playerIdx playerId ids =
     (let player = players room ! playerIdx in
      if length ids = 0 then (room, Inl NO_TILES_TO_EXCHANGE)
      else if length (bag g) < length ids then (room, Inl BAG_TOO_SMALL)
      else if list_ex (\<lambda>i. i \<notin> set (map tile_id (rack player))) ids
        then (room, Inl TILE_NOT_IN_RACK)
      else
        (let toReturn = filter (\<lambda>t. tile_id t \<in> set ids) (rack player);
             kept = filter (\<lambda>t. tile_id t \<notin> set ids) (rack player);
             bag1 = shuffle (randomIndex env) (bag g @ toReturn);
             (drawn, bag2) = drawTiles bag1 (length ids);
             player' = player\<lparr>rack := kept @ drawn,
                               stats := (stats player)\<lparr>passes := passes (stats player) + 1\<rparr>\<rparr>;
             g1 = g\<lparr>bag := bag2, consecutivePasses := consecutivePasses g + 1\<rparr>;
             move = buildMoveSummary env Exchange playerId [] 0 g1 [];
             g2 = g1\<lparr>lastMove := Some move, game_log := game_log g1 @ [move]\<rparr>
         in finishMove env (room\<lparr>players := (players room)[playerIdx := player']\<rparr>) g2 move))"

text \<open>
  The two validation loops over the placements. In the first, \<open>game.board[pl.y][pl.x]\<close>
  is read once the bounds test has passed: for a \<open>y\<close> that is not an integer
  \<open>board[pl.y]\<close> is \<open>undefined\<close>, for an \<open>x\<close> that is not an integer
  \<open>board[pl.y][pl.x]\<close> is, and reading a property of \<open>undefined\<close> throws a
  \<open>TypeError\<close>.
\<close>

fun checkCells :: "BoardCell list list \<Rightarrow> MovePlacement list \<Rightarrow> error option" where
  "checkCells b [] = None"
| "checkCells b (pl # pls) =
     (if px pl < 0 \<or> px pl \<ge> 15 \<or> py pl < 0 \<or> py pl \<ge> 15 then Some OUT_OF_BOUNDS
      else if \<not> isInteger (py pl) \<or> \<not> isInteger (px pl) then Some TYPE_ERROR
      else if tile (cellAt b (cellX pl) (cellY pl)) \<noteq> None then Some CELL_OCCUPIED
      else checkCells b pls)"

fun checkTiles :: "string set \<Rightarrow> string set \<Rightarrow> MovePlacement list \<Rightarrow> error option" where
  "checkTiles rackIds used [] = None"
| "checkTiles rackIds used (pl # pls) =
     (if tileId pl \<notin> rackIds then Some TILE_NOT_IN_RACK
      else if tileId pl \<in> used then Some DUPLICATE_TILE
      else checkTiles rackIds (insert (tileId pl) used) pls)"

text \<open>\<open>w.replace(/#/g, '?').toUpperCase()\<close>\<close>

definition normalizeWord :: "string \<Rightarrow> string" where
  "normalizeWord w = toUpperCase (map (\<lambda>c. if c = CHR ''#'' then CHR ''?'' else c) w)"

text \<open>The score of a play: main word, cross words, and the bonus for seven placements.\<close>

definition moveScore ::
  "BoardCell list list \<Rightarrow> MovePlacement list \<Rightarrow> PlacementInfo \<Rightarrow> Direction \<Rightarrow> MainWord \<Rightarrow>
   CrossWord list \<Rightarrow> int" where
  "moveScore b pls info dir main cross =
     (let mainScore = scoreWord b pls info dir main;
          tot = fold (\<lambda>cw tot. tot + scoreCrossWord b pls info cw) cross mainScore
      in if length pls = 7 then tot + 50 else tot)"

text \<open>
  One round of the loop that applies the placements: the rack tile is copied into the
  cell with \<open>fromPlayerId\<close> and \<open>turnPlayed\<close>, and a cell with a bonus is marked used.
\<close>

definition placeTile ::
  "string \<Rightarrow> int \<Rightarrow> Tile list \<Rightarrow> MovePlacement \<Rightarrow> BoardCell list list \<Rightarrow> BoardCell list list" where
  "placeTile playerId turnNo rk pl b =
     (case rackTile rk (tileId pl) of
        None \<Rightarrow> b
      | Some t \<Rightarrow>
          (let cell = cellAt b (cellX pl) (cellY pl);
               cell1 = cell\<lparr>tile := Some \<lparr>tile_id = tile_id t, letter = letter t,
                                          tile_value = tile_value t, isJoker = isJoker t,
                                          fromPlayerId = playerId, turnPlayed = turnNo\<rparr>\<rparr>;
               cell2 = (if bonus cell1 \<noteq> None then cell1\<lparr>bonusUsed := True\<rparr> else cell1)
           in b[nat (cellY pl) := (b ! nat (cellY pl))[nat (cellX pl) := cell2]]))"

definition commitPlay ::
  "Env \<Rightarrow> Room \<Rightarrow> GameState \<Rightarrow> nat \<Rightarrow> string \<Rightarrow> MovePlacement list \<Rightarrow> int \<Rightarrow> MainWord \<Rightarrow>
   string list \<Rightarrow> Room \<times> (error + MoveSummary \<times> bool)" where
  "commitPlay env room g playerIdx playerId pls tot main allWords =
     (let player = players room ! playerIdx;
          turnNo = version g + 1;
          board' = fold (placeTile playerId turnNo (rack player)) pls (board g);
          kept = filter (\<lambda>t. tile_id t \<notin> set (map tileId pls)) (rack player);
          (drawn, bag') =
             drawTiles (bag g) (nat (min (7 - int (length kept)) (int (length (bag g)))));
          st = stats player;
          st1 = st\<lparr>wordsPlayed := wordsPlayed st + 1, totalTurns := totalTurns st + 1\<rparr>;
          st2 = (if tot > bestWordScore st1
                 then st1\<lparr>bestWordScore := tot, bestWord := Some (mw_word main)\<rparr>
                 else st1);
          player' = player\<lparr>rack := kept @ drawn, score := score player + tot, stats := st2\<rparr>;
          g1 = g\<lparr>board := board', bag := bag', consecutivePasses := 0\<rparr>;
          move = buildMoveSummary env Play playerId pls tot g1 allWords;
          g2 = g1\<lparr>lastMove := Some move, game_log := game_log g1 @ [move]\<rparr>
      in finishMove env (room\<lparr>players := (players room)[playerIdx := player']\<rparr>) g2 move)"

definition doPlay ::
  "Env \<Rightarrow> Room \<Rightarrow> GameState \<Rightarrow> nat \<Rightarrow> string \<Rightarrow> MovePlacement list \<Rightarrow>
   Room \<times> (error + MoveSummary \<times> bool)" where
  "doPlay env room g playerIdx playerId pls =
     (let player = players room ! playerIdx in
      if length pls = 0 then (room, Inl NO_PLACEMENTS)
      else case checkCells (board g) pls of Some e \<Rightarrow> (room, Inl e) | None \<Rightarrow>
      (case checkTiles (set (map tile_id (rack player))) {} pls of Some e \<Rightarrow> (room, Inl e) | None \<Rightarrow>
      (let sameRow = list_all (\<lambda>p. cellY p = cellY (hd pls)) pls;
           sameCol = list_all (\<lambda>p. cellX p = cellX (hd pls)) pls
       in if \<not> sameRow \<and> \<not> sameCol then (room, Inl NOT_ALIGNED)
       else
       (let firstMove = boardIsEmpty (board g)
        in if firstMove \<and> \<not> list_ex (\<lambda>p. cellX p = 7 \<and> cellY p = 7) pls
           then (room, Inl MUST_COVER_CENTER)
        else
        (let info = buildPlacementInfo (rack player) pls;
             direction = (if sameRow then Row else Col);
             main = buildMainWord (board g) pls info direction
         in if \<not> mw_contiguous main then (room, Inl NOT_CONTIGUOUS)
            else if \<not> firstMove \<and> \<not> mw_connected main then (room, Inl NOT_CONNECTED)
            else
            (let cross = buildCrossWords (board g) pls info direction;
                 allWords = filter (\<lambda>w. length w > 1) (mw_word main # map cw_word cross)
             in if length allWords = 0 then (room, Inl NO_WORD_FORMED)
                else (case find (\<lambda>w. \<not> wordValidator env (normalizeWord w)) allWords of
                        Some w \<Rightarrow> (room, Inl (INVALID_WORD w))
                      | None \<Rightarrow>
                          commitPlay env room g playerIdx playerId pls
                            (moveScore (board g) pls info direction main cross) main allWords)))))))"

text \<open>
  \<open>playMove\<close> returns the room as the call leaves it, and either the error thrown or the
  result \<open>{ move, ended }\<close>. An absent \<open>placements\<close> or \<open>tileIdsToExchange\<close> is \<open>None\<close>.
\<close>

definition playMove ::
  "Env \<Rightarrow> Room \<Rightarrow> string \<Rightarrow> Action \<Rightarrow> MovePlacement list option \<Rightarrow> string list option \<Rightarrow>
   Room \<times> (error + MoveSummary \<times> bool)" where
  "playMove env room playerId act placements tileIdsToExchange =
     (case game room of
        None \<Rightarrow> (room, Inl NO_GAME)
      | Some g \<Rightarrow>
          (case findIndex (\<lambda>p. player_id p = playerId) (players room) of
             None \<Rightarrow> (room, Inl PLAYER_NOT_IN_ROOM)
           | Some playerIdx \<Rightarrow>
               if activePlayerId g \<noteq> playerId then (room, Inl NOT_YOUR_TURN)
               else (case act of
                       Pass \<Rightarrow> doPass env room g playerIdx playerId
                     | Exchange \<Rightarrow>
                         doExchange env room g playerIdx playerId
                           (case tileIdsToExchange of Some ids \<Rightarrow> ids | None \<Rightarrow> [])
                     | Play \<Rightarrow>
                         doPlay env room g playerIdx playerId
                           (case placements of Some pls \<Rightarrow> pls | None \<Rightarrow> []))))"

section \<open>Starting a game (constants.ts, GameService.startNewGame)\<close>

datatype Language = EN | FR

record LetterDef =
  ld_letter :: string
  ld_count :: nat
  ld_value :: int
  ld_isJoker :: bool

text \<open>An entry without \<open>isJoker\<close>; \<open>!!def.isJoker\<close> is false for it.\<close>

definition mkLetter :: "string \<Rightarrow> nat \<Rightarrow> int \<Rightarrow> LetterDef" where
  "mkLetter l c v = \<lparr>ld_letter = l, ld_count = c, ld_value = v, ld_isJoker = False\<rparr>"

definition letterDistributionFR :: "LetterDef list" where
  "letterDistributionFR =
     [mkLetter ''A'' 9 1, mkLetter ''B'' 2 3, mkLetter ''C'' 2 3, mkLetter ''D'' 3 2,
      mkLetter ''E'' 15 1, mkLetter ''F'' 2 4, mkLetter ''G'' 2 2, mkLetter ''H'' 2 4,
      mkLetter ''I'' 8 1, mkLetter ''J'' 1 8, mkLetter ''K'' 1 10, mkLetter ''L'' 5 1,
      mkLetter ''M'' 3 2, mkLetter ''N'' 6 1, mkLetter ''O'' 6 1, mkLetter ''P'' 2 3,
      mkLetter ''Q'' 1 8, mkLetter ''R'' 6 1, mkLetter ''S'' 6 1, mkLetter ''T'' 6 1,
      mkLetter ''U'' 6 1, mkLetter ''V'' 2 4, mkLetter ''W'' 1 10, mkLetter ''X'' 1 10,
      mkLetter ''Y'' 1 10, mkLetter ''Z'' 1 10,
      \<lparr>ld_letter = [], ld_count = 2, ld_value = 0, ld_isJoker = True\<rparr>]"

definition letterDistributionEN :: "LetterDef list" where
  "letterDistributionEN =
     [mkLetter ''A'' 9 1, mkLetter ''B'' 2 3, mkLetter ''C'' 2 3, mkLetter ''D'' 4 2,
      mkLetter ''E'' 12 1, mkLetter ''F'' 2 4, mkLetter ''G'' 3 2, mkLetter ''H'' 2 4,
      mkLetter ''I'' 9 1, mkLetter ''J'' 1 8, mkLetter ''K'' 1 5, mkLetter ''L'' 4 1,
      mkLetter ''M'' 2 3, mkLetter ''N'' 6 1, mkLetter ''O'' 8 1, mkLetter ''P'' 2 3,
      mkLetter ''Q'' 1 10, mkLetter ''R'' 6 1, mkLetter ''S'' 4 1, mkLetter ''T'' 6 1,
      mkLetter ''U'' 4 1, mkLetter ''V'' 2 4, mkLetter ''W'' 2 4, mkLetter ''X'' 1 8,
      mkLetter ''Y'' 2 4, mkLetter ''Z'' 1 10,
      \<lparr>ld_letter = [], ld_count = 2, ld_value = 0, ld_isJoker = True\<rparr>]"

definition getLetterDistribution :: "Language \<Rightarrow> LetterDef list" where
  "getLetterDistribution lang =
     (case lang of FR \<Rightarrow> letterDistributionFR | EN \<Rightarrow> letterDistributionEN)"

text \<open>\<open>generateBonusLayout\<close>: the cells \<open>(x, y, bonus)\<close> in the order they are pushed.\<close>

definition generateBonusLayout :: "(int \<times> int \<times> BonusType) list" where
  "generateBonusLayout =
     map (\<lambda>(x, y). (x, y, TW))
        [(0, 0), (0, 7), (0, 14), (7, 0), (7, 14), (14, 0), (14, 7), (14, 14)] @
     map (\<lambda>(x, y). (x, y, DW))
        [(1, 1), (2, 2), (3, 3), (4, 4), (10, 10), (11, 11), (12, 12), (13, 13), (1, 13),
         (2, 12), (3, 11), (4, 10), (10, 4), (11, 3), (12, 2), (13, 1), (7, 7)] @
     map (\<lambda>(x, y). (x, y, TL))
        [(1, 5), (1, 9), (5, 1), (5, 5), (5, 9), (5, 13), (9, 1), (9, 5), (9, 9), (9, 13),
         (13, 5), (13, 9)] @
     map (\<lambda>(x, y). (x, y, DL))
        [(0, 3), (0, 11), (2, 6), (2, 8), (3, 0), (3, 7), (3, 14), (6, 2), (6, 6), (6, 8),
         (6, 12), (7, 3), (7, 11), (8, 2), (8, 6), (8, 8), (8, 12), (11, 0), (11, 7),
         (11, 14), (12, 6), (12, 8), (14, 3), (14, 11)]"

definition blankBoard :: "BoardCell list list" where
  "blankBoard =
     map (\<lambda>y. map (\<lambda>x. \<lparr>cx = x, cy = y, bonus = None, tile = None, bonusUsed = False\<rparr>) [0..14])
       [0..14]"

definition paintBonus :: "int \<times> int \<times> BonusType \<Rightarrow> BoardCell list list \<Rightarrow> BoardCell list list" where
  "paintBonus e b =
     (case e of (x, y, bn) \<Rightarrow>
        b[nat y := (b ! nat y)[nat x := (cellAt b x y)\<lparr>bonus := Some bn\<rparr>]])"

definition newBoard :: "BoardCell list list" where
  "newBoard = fold paintBonus generateBonusLayout blankBoard"

text \<open>The bag, before shuffling; \<open>k\<close> counts the calls of \<open>tileId()\<close> so far.\<close>

fun buildBag :: "Env \<Rightarrow> nat \<Rightarrow> LetterDef list \<Rightarrow> Tile list" where
  "buildBag env k [] = []"
| "buildBag env k (d # ds) =
     map (\<lambda>i. \<lparr>tile_id = tileIds env (k + i), letter = ld_letter d,
                tile_value = ld_value d, isJoker = ld_isJoker d\<rparr>) [0..<ld_count d]
     @ buildBag env (k + ld_count d) ds"

fun dealRacks :: "Player list \<Rightarrow> Tile list \<Rightarrow> Player list \<times> Tile list" where
  "dealRacks [] bg = ([], bg)"
| "dealRacks (p # ps) bg =
     (let (out, bg') = drawTiles bg 7;
          (ps', bg'') = dealRacks ps bg'
      in (p\<lparr>rack := out\<rparr> # ps', bg''))"

definition resetPlayer :: "Player \<Rightarrow> Player" where
  "resetPlayer p =
     p\<lparr>score := 0, rack := [], ready := False,
       stats := \<lparr>wordsPlayed = 0, bestWordScore = 0, bestWord = None, totalTurns = 0, passes = 0\<rparr>\<rparr>"

definition startNewGame :: "Env \<Rightarrow> Language \<Rightarrow> Room \<Rightarrow> error + Room" where
  "startNewGame env lang room =
     (if length (players room) = 0 then Inl NO_PLAYERS
      else
        (let ps = map resetPlayer (players room);
             bag0 = shuffle (randomIndex env) (buildBag env 0 (getLetterDistribution lang));
             (ps', bag1) = dealRacks ps bag0
         in Inr (room\<lparr>players := ps',
                      game := Some \<lparr>board = newBoard, bag = bag1, turnIndex = 0,
                                    activePlayerId = player_id (hd ps'),
                                    turnEndsAt = clock env 0 + TURN_DURATION_MS,
                                    turnDurationMs = TURN_DURATION_MS,
                                    lastMove = None, game_log = [], consecutivePasses = 0,
                                    startedAt = clock env 0, version = 1\<rparr>\<rparr>)))"

section \<open>RoomStore.joinRoom\<close>

datatype join_error = ROOM_NOT_FOUND | ROOM_FULL | ROOM_NOT_JOINABLE | NICKNAME_TAKEN

type_synonym RoomStore = "string \<rightharpoonup> Room"

definition lowerChar :: "char \<Rightarrow> char" where
  "lowerChar c =
     (if (65::nat) \<le> of_char c \<and> (of_char c :: nat) \<le> 90
      then char_of ((of_char c :: nat) + 32) else c)"

definition toLowerCase :: "string \<Rightarrow> string" where
  "toLowerCase s = map lowerChar s"

text \<open>
  \<open>joinRoom(roomId, nickname, playerId?)\<close>, with the store it leaves. \<open>now\<close> is the
  reading of \<open>this.now()\<close>, \<open>fresh\<close> the value of \<open>randomId(16)\<close>. An absent
  \<open>playerId\<close> is \<open>None\<close>; an empty one is as falsy as an absent one.
\<close>

definition joinRoom ::
  "int \<Rightarrow> string \<Rightarrow> RoomStore \<Rightarrow> string \<Rightarrow> string \<Rightarrow> string option \<Rightarrow>
   RoomStore \<times> (join_error + Room \<times> Player)" where
  "joinRoom now fresh rooms roomId nick playerId =
     (case rooms roomId of
        None \<Rightarrow> (rooms, Inl ROOM_NOT_FOUND)
      | Some room \<Rightarrow>
          if int (length (players room)) \<ge> maxPlayers room then (rooms, Inl ROOM_FULL)
          else if status room \<noteq> Waiting then (rooms, Inl ROOM_NOT_JOINABLE)
          else if list_ex (\<lambda>p. toLowerCase (nickname p) = toLowerCase nick) (players room)
            then (rooms, Inl NICKNAME_TAKEN)
          else
            (let given = (case playerId of Some i \<Rightarrow> if i = [] then None else Some i | None \<Rightarrow> None);
                 found = (case given of
                            Some i \<Rightarrow> find (\<lambda>p. player_id p = i) (players room)
                          | None \<Rightarrow> None)
             in case found of
                  Some player \<Rightarrow>
                    (let room' = room\<lparr>lastActivityAt := now\<rparr>
                     in (rooms(roomId \<mapsto> room'), Inr (room', player)))
                | None \<Rightarrow>
                    (let player = \<lparr>player_id = (case given of Some i \<Rightarrow> i | None \<Rightarrow> fresh),
                                   nickname = take 15 nick, connected = True, ready = False,
                                   score = 0, rack = [],
                                   stats = \<lparr>wordsPlayed = 0, bestWordScore = 0, bestWord = None,
                                            totalTurns = 0, passes = 0\<rparr>,
                                   connectionId = None\<rparr>;
                         room' = room\<lparr>players := players room @ [player], lastActivityAt := now\<rparr>
                     in (rooms(roomId \<mapsto> room'), Inr (room', player)))))"

section \<open>WebSocketServer.handlePlayMove\<close>

text \<open>
  What the handler emits, in order, with its target: the submitting socket, the room, or
  one player's connection. A \<open>gameState\<close> message carries the summary
  \<open>toGameStateSummaryForPlayer\<close> computes from the room for one player; the model
  records the room id and that player's id.
\<close>

datatype Target = ToSocket string | ToRoom string | ToConnection string

datatype Message =
    ErrorMsg string string
  | MoveAccepted string MoveSummary
  | GameStateMsg string string
  | TurnUpdate string string int int
  | GameEnded string "(string \<times> int) list" "(string \<times> PlayerStats) list" "string list"
  | InvalidMove string string

record PlayMovePayload =
  pm_roomId :: string
  pm_action :: Action
  pm_placements :: "MovePlacement list option"
  pm_tileIdsToExchange :: "string list option"

text \<open>
  The \<open>message\<close> and the \<open>reason\<close> property of the \<open>Error\<close> object a throw creates.
  The message of the \<open>TypeError\<close> is the engine's; it goes on to name the property read.
\<close>

fun errorMessage :: "error \<Rightarrow> string" where
  "errorMessage NO_PLAYERS = ''NO_PLAYERS''"
| "errorMessage NO_GAME = ''NO_GAME''"
| "errorMessage PLAYER_NOT_IN_ROOM = ''PLAYER_NOT_IN_ROOM''"
| "errorMessage NOT_YOUR_TURN = ''NOT_YOUR_TURN''"
| "errorMessage NO_TILES_TO_EXCHANGE = ''NO_TILES_TO_EXCHANGE''"
| "errorMessage BAG_TOO_SMALL = ''BAG_TOO_SMALL''"
| "errorMessage TILE_NOT_IN_RACK = ''TILE_NOT_IN_RACK''"
| "errorMessage NO_PLACEMENTS = ''NO_PLACEMENTS''"
| "errorMessage OUT_OF_BOUNDS = ''OUT_OF_BOUNDS''"
| "errorMessage CELL_OCCUPIED = ''CELL_OCCUPIED''"
| "errorMessage DUPLICATE_TILE = ''DUPLICATE_TILE''"
| "errorMessage NOT_ALIGNED = ''NOT_ALIGNED''"
| "errorMessage MUST_COVER_CENTER = ''MUST_COVER_CENTER''"
| "errorMessage NOT_CONTIGUOUS = ''NOT_CONTIGUOUS''"
| "errorMessage NOT_CONNECTED = ''NOT_CONNECTED''"
| "errorMessage NO_WORD_FORMED = ''NO_WORD_FORMED''"
| "errorMessage (INVALID_WORD w) = ''INVALID_WORD''"
| "errorMessage TYPE_ERROR = ''Cannot read properties of undefined''"

fun errorReason :: "error \<Rightarrow> string option" where
  "errorReason (INVALID_WORD w) = Some w"
| "errorReason e = None"

text \<open>\<open>e?.reason || e?.message || 'INVALID_MOVE'\<close>: an empty string is falsy.\<close>

definition invalidMoveReason :: "error \<Rightarrow> string" where
  "invalidMoveReason e =
     (case errorReason e of
        Some r \<Rightarrow> if r \<noteq> [] then r
                  else if errorMessage e \<noteq> [] then errorMessage e else ''INVALID_MOVE''
      | None \<Rightarrow> if errorMessage e \<noteq> [] then errorMessage e else ''INVALID_MOVE'')"

definition broadcastGameState :: "Room \<Rightarrow> (Target \<times> Message) list" where
  "broadcastGameState room =
     (case game room of
        None \<Rightarrow> []
      | Some g \<Rightarrow>
          concat (map (\<lambda>p. case connectionId p of
                              None \<Rightarrow> []
                            | Some c \<Rightarrow> if c = [] then []
                                        else [(ToConnection c, GameStateMsg (room_id room) (player_id p))])
                      (players room)))"

definition gameEndedMessage :: "string \<Rightarrow> Room \<Rightarrow> Message" where
  "gameEndedMessage roomId room =
     (let scores = map (\<lambda>p. (player_id p, score p)) (players room);
          mx = fold max (map snd scores) (snd (hd scores))
      in GameEnded roomId scores (map (\<lambda>p. (player_id p, stats p)) (players room))
           (map fst (filter (\<lambda>e. snd e = mx) scores)))"

definition handlePlayMove ::
  "Env \<Rightarrow> RoomStore \<Rightarrow> string \<Rightarrow> PlayMovePayload \<Rightarrow> RoomStore \<times> (Target \<times> Message) list" where
  "handlePlayMove env rooms socketId payload =
     (let roomId = pm_roomId payload in
      case rooms roomId of
        None \<Rightarrow> (rooms, [(ToSocket socketId, ErrorMsg ''ROOM_NOT_FOUND'' ''Room not found'')])
      | Some room \<Rightarrow>
          (case find (\<lambda>p. connectionId p = Some socketId) (players room) of
             None \<Rightarrow> (rooms, [(ToSocket socketId, ErrorMsg ''NOT_IN_ROOM'' ''Not in room'')])
           | Some player \<Rightarrow>
               (case playMove env room (player_id player) (pm_action payload)
                       (pm_placements payload) (pm_tileIdsToExchange payload) of
                  (room', Inr (move, ended)) \<Rightarrow>
                    (rooms(roomId \<mapsto> room'),
                     [(ToRoom roomId, MoveAccepted roomId move)]
                     @ broadcastGameState room'
                     @ (case game room' of
                          Some g \<Rightarrow> [(ToRoom roomId,
                                       TurnUpdate roomId (activePlayerId g) (turnEndsAt g) (version g))]
                        | None \<Rightarrow> [])
                     @ (if ended then [(ToRoom roomId, gameEndedMessage roomId room')] else []))
                | (room', Inl e) \<Rightarrow>
                    (rooms(roomId \<mapsto> room'),
                     [(ToSocket socketId, InvalidMove roomId (invalidMoveReason e))]))))"

section \<open>Auxiliary notions for the statements\<close>

text \<open>
  What the three branches of \<open>playMove\<close> leave alone before they reach
  \<open>advanceTurn\<close>: the players' ids and the room's status, and the game's version, turn
  index and turn duration.
\<close>

definition moveFrame :: "Room \<Rightarrow> GameState \<Rightarrow> Room \<Rightarrow> GameState \<Rightarrow> bool" where
  "moveFrame room g r0 g0 \<longleftrightarrow>
     map player_id (players r0) = map player_id (players room) \<and> status r0 = status room \<and>
     version g0 = version g \<and> turnIndex g0 = turnIndex g \<and> turnDurationMs g0 = turnDurationMs g"

text \<open>
  A run of \<open>playMove\<close> calls on one room, each with its own environment: the room
  after the last call, and the number of calls that succeeded.
\<close>

fun runMoves ::
  "Room \<Rightarrow> (Env \<times> string \<times> Action \<times> MovePlacement list option \<times> string list option) list \<Rightarrow>
   Room \<times> nat" where
  "runMoves room [] = (room, 0)"
| "runMoves room ((env, pid, act, pls, ids) # rest) =
     (case playMove env room pid act pls ids of
        (room', Inl e) \<Rightarrow> runMoves room' rest
      | (room', Inr res) \<Rightarrow> (case runMoves room' rest of (room'', n) \<Rightarrow> (room'', Suc n)))"

text \<open>
  The scoring rule in the specification's words. A cell is newly placed when some
  placement of the move lies on it; the tile scored at a cell is then the rack tile of
  the placement on it (the last one, should several placements name the cell), and the
  tile already on the board otherwise. Premiums count at newly placed cells whose
  \<open>bonusUsed\<close> is false only. A word's score is the sum of letter value times letter
  multiplier over its cells, times the product of the word multipliers.
\<close>

definition newlyPlaced :: "MovePlacement list \<Rightarrow> int \<times> int \<Rightarrow> bool" where
  "newlyPlaced pls c \<longleftrightarrow> list_ex (\<lambda>p. cellX p = fst c \<and> cellY p = snd c) pls"

definition scoredTile ::
  "BoardCell list list \<Rightarrow> Tile list \<Rightarrow> MovePlacement list \<Rightarrow> int \<times> int \<Rightarrow> Tile option" where
  "scoredTile b rk pls c =
     (case find (\<lambda>p. cellX p = fst c \<and> cellY p = snd c) (rev pls) of
        Some p \<Rightarrow> rackTile rk (tileId p)
      | None \<Rightarrow> (case tile (cellAt b (fst c) (snd c)) of
                   Some t \<Rightarrow> Some \<lparr>tile_id = tile_id t, letter = letter t,
                                   tile_value = tile_value t, isJoker = isJoker t\<rparr>
                 | None \<Rightarrow> None))"

definition letterValue ::
  "BoardCell list list \<Rightarrow> Tile list \<Rightarrow> MovePlacement list \<Rightarrow> int \<times> int \<Rightarrow> int" where
  "letterValue b rk pls c = (case scoredTile b rk pls c of Some t \<Rightarrow> tile_value t | None \<Rightarrow> 0)"

definition letterMultiplier :: "BoardCell list list \<Rightarrow> MovePlacement list \<Rightarrow> int \<times> int \<Rightarrow> int" where
  "letterMultiplier b pls c =
     (if newlyPlaced pls c \<and> \<not> bonusUsed (cellAt b (fst c) (snd c))
      then (case bonus (cellAt b (fst c) (snd c)) of Some DL \<Rightarrow> 2 | Some TL \<Rightarrow> 3 | _ \<Rightarrow> 1)
      else 1)"

definition wordMultiplier :: "BoardCell list list \<Rightarrow> MovePlacement list \<Rightarrow> int \<times> int \<Rightarrow> int" where
  "wordMultiplier b pls c =
     (if newlyPlaced pls c \<and> \<not> bonusUsed (cellAt b (fst c) (snd c))
      then (case bonus (cellAt b (fst c) (snd c)) of Some DW \<Rightarrow> 2 | Some TW \<Rightarrow> 3 | _ \<Rightarrow> 1)
      else 1)"

definition wordScore ::
  "BoardCell list list \<Rightarrow> Tile list \<Rightarrow> MovePlacement list \<Rightarrow> (int \<times> int) list \<Rightarrow> int" where
  "wordScore b rk pls cells =
     sum_list (map (\<lambda>c. letterValue b rk pls c * letterMultiplier b pls c) cells)
     * prod_list (map (wordMultiplier b pls) cells)"

text \<open>
  The coordinates of the board, and the tile a play stores for a rack tile:
  \<open>{ ...tile, fromPlayerId, turnPlayed }\<close>.
\<close>

definition onBoard :: "string \<Rightarrow> int \<Rightarrow> Tile \<Rightarrow> TileOnBoard" where
  "onBoard who tn t =
     \<lparr>tile_id = tile_id t, letter = letter t, tile_value = tile_value t, isJoker = isJoker t,
      fromPlayerId = who, turnPlayed = tn\<rparr>"

definition boardCoords :: "(int \<times> int) list" where
  "boardCoords = concat (map (\<lambda>y. map (\<lambda>x. (x, y)) [0..14]) [0..14])"

text \<open>
  A joker is blank when its letter is empty and its value 0; a room's jokers are blank
  when that holds of every tile in a rack, in the bag and on the board, the board being
  15 rows of 15 cells.
\<close>

definition boardOK :: "BoardCell list list \<Rightarrow> bool" where
  "boardOK b \<longleftrightarrow> length b = 15 \<and> list_all (\<lambda>row. length row = 15) b"

definition jokerBlank :: "'a Tile_scheme \<Rightarrow> bool" where
  "jokerBlank t \<longleftrightarrow> (if isJoker t then letter t = [] \<and> tile_value t = 0 else True)"

definition cellBlank :: "BoardCell \<Rightarrow> bool" where
  "cellBlank c \<longleftrightarrow> (case tile c of Some t \<Rightarrow> jokerBlank t | None \<Rightarrow> True)"

definition gameBlank :: "GameState \<Rightarrow> bool" where
  "gameBlank g \<longleftrightarrow>
     list_all jokerBlank (bag g) \<and> list_all (list_all cellBlank) (board g) \<and> boardOK (board g)"

definition jokersBlank :: "Room \<Rightarrow> bool" where
  "jokersBlank room \<longleftrightarrow>
     list_all (\<lambda>p. list_all jokerBlank (rack p)) (players room) \<and>
     (case game room of Some g \<Rightarrow> gameBlank g | None \<Rightarrow> True)"

section \<open>Sample inputs\<close>

text \<open>Concrete files, rooms and moves at which the theorems below are instantiated.\<close>

definition sampleFile :: string where
  "sampleFile = ''cat'' @ [CHR 0x0D, CHR 0x0A] @ '' dog '' @ [CHR 0x0A, CHR 0x0A] @ ''Bird''"

definition acceptAll :: Env where
  "acceptAll = \<lparr>wordValidator = (\<lambda>w. True), randomIndex = (\<lambda>i. i),
                 tileIds = (\<lambda>k. [CHR ''t'', char_of k]),
                 clock = (\<lambda>k. 1000 + int k)\<rparr>"


definition mkTile :: "string \<Rightarrow> string \<Rightarrow> int \<Rightarrow> Tile" where
  "mkTile i l v = \<lparr>tile_id = i, letter = l, tile_value = v, isJoker = (l = [])\<rparr>"

definition mkPlayer :: "string \<Rightarrow> Tile list \<Rightarrow> Player" where
  "mkPlayer i rk =
     \<lparr>player_id = i, nickname = i, connected = True, ready = True, score = 0, rack = rk,
      stats = \<lparr>wordsPlayed = 0, bestWordScore = 0, bestWord = None, totalTurns = 0, passes = 0\<rparr>,
      connectionId = Some (''s_'' @ i)\<rparr>"

definition mkRoom :: "BoardCell list list \<Rightarrow> Tile list \<Rightarrow> Player list \<Rightarrow> Room" where
  "mkRoom b bg ps =
     \<lparr>room_id = ''ROOM'', hostId = ''a'', status = Playing, maxPlayers = 4, players = ps,
      game = Some \<lparr>board = b, bag = bg, turnIndex = 0, activePlayerId = ''a'', turnEndsAt = 0,
                   turnDurationMs = 120000, lastMove = None, game_log = [],
                   consecutivePasses = 0, startedAt = 0, version = 1\<rparr>,
      lastActivityAt = 0\<rparr>"

definition place :: "rat \<Rightarrow> rat \<Rightarrow> string \<Rightarrow> MovePlacement" where
  "place x y i = \<lparr>px = x, py = y, tileId = i\<rparr>"

text \<open>An opening position: \<open>a\<close> holds RETINAS, the bag one tile.\<close>

definition openingRoom :: Room where
  "openingRoom = mkRoom newBoard [mkTile ''z1'' ''Z'' 10]
     [mkPlayer ''a'' [mkTile ''1'' ''R'' 1, mkTile ''2'' ''E'' 1, mkTile ''3'' ''T'' 1,
                      mkTile ''4'' ''I'' 1, mkTile ''5'' ''N'' 1, mkTile ''6'' ''A'' 1,
                      mkTile ''7'' ''S'' 1],
      mkPlayer ''b'' [mkTile ''8'' ''Q'' 10]]"


text \<open>A position with CAT on row 7 from (7,7); \<open>a\<close> holds D, O, G, T and a blank.\<close>

definition catBoard :: "BoardCell list list" where
  "catBoard = fold (placeTile ''b'' 1 [mkTile ''c'' ''C'' 3, mkTile ''a'' ''A'' 1, mkTile ''t'' ''T'' 1])
                [place 7 7 ''c'', place 8 7 ''a'', place 9 7 ''t''] newBoard"

definition catRoom :: Room where
  "catRoom = mkRoom catBoard [mkTile ''z1'' ''Z'' 10, mkTile ''z2'' ''E'' 1]
     [mkPlayer ''a'' [mkTile ''1'' ''D'' 2, mkTile ''2'' ''O'' 1, mkTile ''3'' ''G'' 2,
                      mkTile ''4'' ''T'' 1, mkTile ''5'' [] 0],
      mkPlayer ''b'' [mkTile ''8'' ''Q'' 10]]"


definition storeOf :: "Room \<Rightarrow> RoomStore" where
  "storeOf room = [room_id room \<mapsto> room]"

definition playPayload :: "MovePlacement list \<Rightarrow> PlayMovePayload" where
  "playPayload pls = \<lparr>pm_roomId = ''ROOM'', pm_action = Play, pm_placements = Some pls,
                       pm_tileIdsToExchange = None\<rparr>"


text \<open>Two waiting rooms with the players \<open>p1\<close> and \<open>p2\<close>: one with free seats, one full.\<close>

definition lobby :: Room where
  "lobby = (mkRoom newBoard [] [mkPlayer ''p1'' [], mkPlayer ''p2'' []])
             \<lparr>status := Waiting, game := None\<rparr>"

definition fullLobby :: Room where
  "fullLobby = lobby\<lparr>maxPlayers := 2\<rparr>"

text \<open>Three requests to pass: by \<open>a\<close>, by \<open>a\<close> again (out of turn), and by \<open>b\<close>.\<close>

definition passRun :: "(Env \<times> string \<times> Action \<times> MovePlacement list option \<times> string list option) list" where
  "passRun = [(acceptAll, ''a'', Pass, None, None), (acceptAll, ''a'', Pass, None, None),
              (acceptAll, ''b'', Pass, None, None)]"

text \<open>An environment whose every random index is 0, so that \<open>shuffle\<close> moves tiles.\<close>

definition swapFirst :: Env where
  "swapFirst = acceptAll\<lparr>randomIndex := (\<lambda>i. 0)\<rparr>"

section \<open>Properties of the dictionary\<close>

lemma fold_addWord:
  "fold addWord ws m n =
     (if filter (\<lambda>w. length w = n) ws = [] then m n
      else Some ((case m n of Some a \<Rightarrow> a | None \<Rightarrow> []) @ filter (\<lambda>w. length w = n) ws))"
  by (induction ws arbitrary: m) (auto simp: addWord_def Let_def)

lemma exactLookup_iff: "exactLookup pool W \<longleftrightarrow> W \<in> set pool"
  by (induction pool) auto

lemma matchesFrom_iff:
  "matchesFrom W v is \<longleftrightarrow> (\<forall>i \<in> set is. W ! i = CHR ''?'' \<or> (i < length v \<and> v ! i = W ! i))"
  by (induction "is") auto

lemma wildcardLookup_iff:
  "wildcardLookup pool W \<longleftrightarrow> (\<exists>v \<in> set pool. matchesFrom W v [0..<length W])"
  by (induction pool) auto

lemma byLength_new:
  "byLength (newWordValidatorFile (Some raw)) n =
     (if filter (\<lambda>w. length w = n) (loadWords raw) = [] then None
      else Some (filter (\<lambda>w. length w = n) (loadWords raw)))"
  by (simp add: newWordValidatorFile_def fold_addWord)

lemma matchesFrom_upt:
  "matchesFrom W v [0..<n] \<longleftrightarrow>
     (\<forall>i<n. W ! i = CHR ''?'' \<or> (i < length v \<and> v ! i = W ! i))"
  by (simp add: matchesFrom_iff Ball_def)

lemma exact_as_positions:
  assumes "CHR ''?'' \<notin> set W"
  shows "(length v = length W \<and> (\<forall>i<length W. W ! i = CHR ''?'' \<or> v ! i = W ! i)) \<longleftrightarrow> v = W"
proof
  assume h: "length v = length W \<and> (\<forall>i<length W. W ! i = CHR ''?'' \<or> v ! i = W ! i)"
  have "\<forall>i<length W. W ! i \<noteq> CHR ''?''" using assms by (metis nth_mem)
  with h show "v = W" by (auto intro: nth_equalityI)
qed auto

text \<open>
  Claim C10. When the dictionary file cannot be read, \<open>isWordValid\<close> answers false to
  every query. When it loads, \<open>isWordValid w\<close> is true exactly when some loaded word has
  the length of the uppercased query and agrees with it at every position where the
  query is not \<open>?\<close>.
\<close>

theorem isWordValid_spec:
  "isWordValid (newWordValidatorFile None) w = False \<and>
   (isWordValid (newWordValidatorFile (Some raw)) w \<longleftrightarrow>
      (\<exists>v \<in> set (loadWords raw).
          length v = length (toUpperCase w) \<and>
          (\<forall>i < length (toUpperCase w).
              toUpperCase w ! i = CHR ''?'' \<or> v ! i = toUpperCase w ! i)))"
proof
  show "isWordValid (newWordValidatorFile None) w = False"
    by (simp add: isWordValid_def newWordValidatorFile_def)
next
  let ?W = "toUpperCase w"
  let ?pool = "filter (\<lambda>v. length v = length ?W) (loadWords raw)"
  have rdy: "wv_ready (newWordValidatorFile (Some raw))"
    by (simp add: newWordValidatorFile_def)
  show "isWordValid (newWordValidatorFile (Some raw)) w \<longleftrightarrow>
      (\<exists>v \<in> set (loadWords raw). length v = length ?W \<and>
          (\<forall>i < length ?W. ?W ! i = CHR ''?'' \<or> v ! i = ?W ! i))"
  proof (cases "?pool = []")
    case True
    then have "isWordValid (newWordValidatorFile (Some raw)) w = False"
      using rdy by (simp add: isWordValid_def byLength_new)
    moreover have "\<not> (\<exists>v \<in> set (loadWords raw). length v = length ?W)"
      using True by (auto simp: filter_empty_conv)
    ultimately show ?thesis by blast
  next
    case False
    show ?thesis
    proof (cases "CHR ''?'' \<in> set ?W")
      case True
      with False rdy
      have "isWordValid (newWordValidatorFile (Some raw)) w = wildcardLookup ?pool ?W"
        by (simp add: isWordValid_def byLength_new Let_def)
      then show ?thesis
        by (auto simp: wildcardLookup_iff matchesFrom_upt)
    next
      case nq: False
      with False rdy
      have "isWordValid (newWordValidatorFile (Some raw)) w = exactLookup ?pool ?W"
        by (simp add: isWordValid_def byLength_new Let_def)
      then show ?thesis
        using exact_as_positions[OF nq] by (auto simp: exactLookup_iff)
    qed
  qed
qed

lemma loadWords_sampleFile: "loadWords sampleFile = [''CAT'', ''DOG'', ''BIRD'']"
  by code_simp

theorem isWordValid_spec_witness:
  "isWordValid (newWordValidatorFile None) ''d?g'' = False \<and>
   isWordValid (newWordValidatorFile (Some sampleFile)) ''d?g'' \<and>
   (\<exists>v \<in> set (loadWords sampleFile). length v = length (toUpperCase ''d?g'') \<and>
       v ! 0 = CHR ''D'' \<and> v ! 2 = CHR ''G'')"
proof -
  have up: "toUpperCase ''d?g'' = ''D?G''" by code_simp
  have ex: "\<exists>v \<in> set (loadWords sampleFile). length v = length (toUpperCase ''d?g'') \<and>
       v ! 0 = CHR ''D'' \<and> v ! 2 = CHR ''G''"
    unfolding loadWords_sampleFile up by simp
  have "\<exists>v \<in> set (loadWords sampleFile). length v = length (toUpperCase ''d?g'') \<and>
          (\<forall>i < length (toUpperCase ''d?g'').
              toUpperCase ''d?g'' ! i = CHR ''?'' \<or> v ! i = toUpperCase ''d?g'' ! i)"
    unfolding loadWords_sampleFile up by (simp add: less_Suc_eq numeral_3_eq_3)
  with isWordValid_spec[of "''d?g''" sampleFile] ex show ?thesis by blast
qed

section \<open>Properties of the game service\<close>

subsection \<open>End of game: the final scoring loop\<close>

lemma rackValue_sum: "rackValue rk = sum_list (map tile_value rk)"
proof -
  have "fold (\<lambda>t acc. acc + tile_value t) rk a = a + sum_list (map tile_value rk)" for a
    by (induction rk arbitrary: a) auto
  then show ?thesis by (simp add: rackValue_def)
qed

lemma findIndex_Some:
  "findIndex P xs = Some i \<Longrightarrow> i < length xs \<and> P (xs ! i) \<and> (\<forall>j<i. \<not> P (xs ! j))"
proof (induction xs arbitrary: i)
  case Nil
  then show ?case by simp
next
  case (Cons x xs)
  then show ?case
    by (auto split: if_splits option.splits simp: nth_Cons less_Suc_eq_0_disj)
qed

lemma findIndex_None: "findIndex P xs = None \<longleftrightarrow> (\<forall>x \<in> set xs. \<not> P x)"
  by (induction xs) (auto split: option.splits)

lemma finalScores_spec:
  "finalScores fin k ps s = (ps', s') \<Longrightarrow>
     length ps' = length ps \<and>
     (\<forall>i<length ps. ps' ! i = (ps ! i)\<lparr>score := score (ps ! i) - rackValue (rack (ps ! i))\<rparr>) \<and>
     s' = s + (\<Sum>i<length ps. if Some (k + i) \<noteq> fin then rackValue (rack (ps ! i)) else 0)"
proof (induction ps arbitrary: k s ps' s')
  case Nil
  then show ?case by simp
next
  case (Cons p ps)
  obtain qs t where rec: "finalScores fin (Suc k) ps
      (if Some k \<noteq> fin then s + rackValue (rack p) else s) = (qs, t)"
    by (cases "finalScores fin (Suc k) ps (if Some k \<noteq> fin then s + rackValue (rack p) else s)")
  with Cons.prems have ps': "ps' = p\<lparr>score := score p - rackValue (rack p)\<rparr> # qs" and s': "s' = t"
    by (auto simp: Let_def)
  note ih = Cons.IH[OF rec]
  have len: "length ps' = length (p # ps)" using ih ps' by simp
  have nth: "\<forall>i<length (p # ps). ps' ! i =
      ((p # ps) ! i)\<lparr>score := score ((p # ps) ! i) - rackValue (rack ((p # ps) ! i))\<rparr>"
    using ih ps' by (auto simp: nth_Cons split: nat.splits)
  define G where "G i = (if Some (k + i) \<noteq> fin then rackValue (rack ((p # ps) ! i)) else 0)" for i
  have "(\<Sum>i<length (p # ps). G i) = G 0 + (\<Sum>i<length ps. G (Suc i))"
    by (simp only: list.size sum.lessThan_Suc_shift add_Suc_right add_0_right One_nat_def)
  also have "\<dots> = (if Some k \<noteq> fin then rackValue (rack p) else 0) +
      (\<Sum>i<length ps. if Some (Suc k + i) \<noteq> fin then rackValue (rack (ps ! i)) else 0)"
    by (simp add: G_def cong: if_cong)
  finally have "s' = s + (\<Sum>i<length (p # ps). G i)"
    using ih s' by simp
  then have "s' = s + (\<Sum>i<length (p # ps).
      if Some (k + i) \<noteq> fin then rackValue (rack ((p # ps) ! i)) else 0)"
    by (simp only: G_def)
  with len nth show ?case by blast
qed

lemma checkAndFinalize_spec:
  assumes "checkAndFinalizeIfEnded r g = (r', e)"
  shows "(e \<longleftrightarrow> (bag g = [] \<and> (\<exists>p \<in> set (players r). rack p = [])) \<or> consecutivePasses g \<ge> 6)"
    and "\<not> e \<Longrightarrow> r' = r"
    and "e \<Longrightarrow> status r' = Finished \<and> game r' = game r \<and> length (players r') = length (players r)"
    and "e \<Longrightarrow> i < length (players r) \<Longrightarrow> rack (players r' ! i) = rack (players r ! i)"
    and "e \<Longrightarrow> i < length (players r) \<Longrightarrow> player_id (players r' ! i) = player_id (players r ! i)"
    and "e \<Longrightarrow> i < length (players r) \<Longrightarrow> rack (players r ! i) \<noteq> [] \<Longrightarrow>
           score (players r' ! i) = score (players r ! i) - sum_list (map tile_value (rack (players r ! i)))"
    and "e \<Longrightarrow> i < length (players r) \<Longrightarrow> rack (players r ! i) = [] \<Longrightarrow>
           \<forall>j<length (players r). j \<noteq> i \<longrightarrow> rack (players r ! j) \<noteq> [] \<Longrightarrow>
           score (players r' ! i) = score (players r ! i) +
             (\<Sum>j \<in> {..<length (players r)} - {i}. sum_list (map tile_value (rack (players r ! j))))"
proof -
  let ?ps = "players r"
  let ?fin = "findIndex (\<lambda>p. length (rack p) = 0) ?ps"
  let ?cond = "(bag g = [] \<and> (\<exists>p \<in> set ?ps. rack p = [])) \<or> consecutivePasses g \<ge> 6"
  show e_iff: "e \<longleftrightarrow> ?cond"
    using assms
    by (auto simp: checkAndFinalizeIfEnded_def Let_def list_ex_iff MAX_CONSECUTIVE_PASSES_def
        split: if_splits prod.splits)
  show "\<not> e \<Longrightarrow> r' = r"
    using assms
    by (auto simp: checkAndFinalizeIfEnded_def Let_def split: if_splits prod.splits)
  obtain qs t where fs: "finalScores ?fin 0 ?ps 0 = (qs, t)"
    by (cases "finalScores ?fin 0 ?ps 0")
  note sp = finalScores_spec[OF fs]
  have r'_eq: "e \<Longrightarrow> r' = r\<lparr>players := (case ?fin of
        Some f \<Rightarrow> qs[f := (qs ! f)\<lparr>score := score (qs ! f) + t\<rparr>] | None \<Rightarrow> qs),
      status := Finished\<rparr>"
    using assms fs
    by (auto simp: checkAndFinalizeIfEnded_def Let_def split: if_splits prod.splits)
  have len': "e \<Longrightarrow> length (players r') = length ?ps"
    using r'_eq sp by (auto split: option.splits)
  have nth': "players r' ! k = (?ps ! k)\<lparr>score := score (?ps ! k) - rackValue (rack (?ps ! k))
        + (if ?fin = Some k then t else 0)\<rparr>" if "e" "k < length ?ps" for k
  proof (cases ?fin)
    case None
    then show ?thesis using r'_eq[OF that(1)] sp that(2) by simp
  next
    case (Some f)
    show ?thesis
    proof (cases "f = k")
      case True
      then show ?thesis using r'_eq[OF that(1)] sp that(2) Some by simp
    next
      case False
      then show ?thesis using r'_eq[OF that(1)] sp that(2) Some by simp
    qed
  qed
  show "e \<Longrightarrow> status r' = Finished \<and> game r' = game r \<and> length (players r') = length (players r)"
    using r'_eq len' by simp
  show "e \<Longrightarrow> i < length (players r) \<Longrightarrow> rack (players r' ! i) = rack (players r ! i)"
    using nth' by simp
  show "e \<Longrightarrow> i < length (players r) \<Longrightarrow> player_id (players r' ! i) = player_id (players r ! i)"
    using nth' by simp
  show "score (players r' ! i) = score (players r ! i) - sum_list (map tile_value (rack (players r ! i)))"
    if "e" "i < length (players r)" "rack (players r ! i) \<noteq> []"
  proof -
    have "?fin \<noteq> Some i" using findIndex_Some[of _ ?ps i] that by auto
    then show ?thesis
      using nth'[OF that(1,2)] by (simp add: rackValue_sum)
  qed
  show "score (players r' ! i) = score (players r ! i) +
             (\<Sum>j \<in> {..<length (players r)} - {i}. sum_list (map tile_value (rack (players r ! j))))"
    if "e" "i < length (players r)" "rack (players r ! i) = []"
       "\<forall>j<length (players r). j \<noteq> i \<longrightarrow> rack (players r ! j) \<noteq> []"
  proof -
    have fin: "?fin = Some i"
    proof (cases ?fin)
      case None
      then show ?thesis using that(2,3) by (auto simp: findIndex_None)
    next
      case (Some f)
      from findIndex_Some[OF Some] that(4) show ?thesis using Some by auto
    qed
    have t: "t = (\<Sum>j<length ?ps. if j \<noteq> i then rackValue (rack (?ps ! j)) else 0)"
      using sp fin by (auto intro: sum.cong)
    also have "\<dots> = (\<Sum>j \<in> {..<length ?ps} - {i}. rackValue (rack (?ps ! j)))"
      by (rule sum.mono_neutral_cong_right) auto
    finally have t': "t = (\<Sum>j \<in> {..<length ?ps} - {i}. sum_list (map tile_value (rack (?ps ! j))))"
      by (simp add: rackValue_sum)
    have "rackValue (rack (?ps ! i)) = 0" using that(3) by (simp add: rackValue_def)
    then show ?thesis
      using nth'[OF that(1,2)] fin t' by simp
  qed
qed

subsection \<open>What a successful move has gone through\<close>

lemma map_update_same: "f y = f (xs ! i) \<Longrightarrow> map f (xs[i := y]) = map f xs"
  by (induction xs arbitrary: i) (auto split: nat.splits)

lemma doPass_success:
  assumes "doPass env room g idx pid = (room', Inr (mv, ended))"
  shows "\<exists>r0 g0 m. finishMove env r0 g0 m = (room', Inr (mv, ended)) \<and> moveFrame room g r0 g0"
  using assms unfolding doPass_def Let_def
  apply (intro exI conjI)
   apply assumption
  apply (simp add: moveFrame_def map_update_same)
  done

lemma doExchange_success:
  assumes "doExchange env room g idx pid ids = (room', Inr (mv, ended))"
  shows "\<exists>r0 g0 m. finishMove env r0 g0 m = (room', Inr (mv, ended)) \<and> moveFrame room g r0 g0"
proof -
  obtain drawn bag2 where d: "drawTiles (shuffle (randomIndex env)
      (bag g @ filter (\<lambda>t. tile_id t \<in> set ids) (rack (players room ! idx)))) (length ids) = (drawn, bag2)"
    by (cases "drawTiles (shuffle (randomIndex env)
      (bag g @ filter (\<lambda>t. tile_id t \<in> set ids) (rack (players room ! idx)))) (length ids)")
  show ?thesis
    using assms unfolding doExchange_def Let_def d prod.case
    apply (simp split: if_splits)
    apply (intro exI conjI)
     apply assumption
    apply (simp add: moveFrame_def map_update_same)
    done
qed

lemma commitPlay_success:
  assumes "commitPlay env room g idx pid pls tot main ws = (room', Inr (mv, ended))"
  shows "\<exists>r0 g0 m. finishMove env r0 g0 m = (room', Inr (mv, ended)) \<and> moveFrame room g r0 g0"
proof -
  obtain drawn bag2 where d: "drawTiles (bag g)
     (nat (min (7 - int (length (filter (\<lambda>t. tile_id t \<notin> set (map tileId pls)) (rack (players room ! idx)))))
        (int (length (bag g))))) = (drawn, bag2)"
    by (cases "drawTiles (bag g)
     (nat (min (7 - int (length (filter (\<lambda>t. tile_id t \<notin> set (map tileId pls)) (rack (players room ! idx)))))
        (int (length (bag g)))))")
  show ?thesis
    using assms unfolding commitPlay_def Let_def d prod.case
    apply (intro exI conjI)
     apply assumption
    apply (simp add: moveFrame_def map_update_same)
    done
qed

lemma doPlay_success:
  assumes "doPlay env room g idx pid pls = (room', Inr (mv, ended))"
  shows "\<exists>tot main ws. commitPlay env room g idx pid pls tot main ws = (room', Inr (mv, ended))"
  using assms unfolding doPlay_def Let_def
  by (auto split: if_splits option.splits)

lemma playMove_success:
  assumes "playMove env room pid act pls ids = (room', Inr (mv, ended))"
  shows "\<exists>g r0 g0 m. game room = Some g \<and> activePlayerId g = pid \<and>
           pid \<in> player_id ` set (players room) \<and>
           finishMove env r0 g0 m = (room', Inr (mv, ended)) \<and> moveFrame room g r0 g0"
proof -
  from assms obtain g idx where g: "game room = Some g"
    and idx: "findIndex (\<lambda>p. player_id p = pid) (players room) = Some idx"
    and act: "activePlayerId g = pid"
    and br: "(case act of
                Pass \<Rightarrow> doPass env room g idx pid
              | Exchange \<Rightarrow> doExchange env room g idx pid (case ids of Some i \<Rightarrow> i | None \<Rightarrow> [])
              | Play \<Rightarrow> doPlay env room g idx pid (case pls of Some p \<Rightarrow> p | None \<Rightarrow> []))
             = (room', Inr (mv, ended))"
    unfolding playMove_def by (auto split: option.splits if_splits)
  have mem: "pid \<in> player_id ` set (players room)"
    using findIndex_Some[OF idx] by (metis image_eqI nth_mem)
  have "\<exists>r0 g0 m. finishMove env r0 g0 m = (room', Inr (mv, ended)) \<and> moveFrame room g r0 g0"
  proof (cases act)
    case Play
    with br obtain tot main ws where
      "commitPlay env room g idx pid (case pls of Some p \<Rightarrow> p | None \<Rightarrow> []) tot main ws
         = (room', Inr (mv, ended))"
      using doPlay_success by fastforce
    then show ?thesis by (rule commitPlay_success)
  next
    case Pass
    with br show ?thesis using doPass_success by simp
  next
    case Exchange
    with br show ?thesis using doExchange_success by simp
  qed
  with g act mem show ?thesis by blast
qed

subsection \<open>Rejected moves\<close>

lemma finishMove_result:
  "\<exists>e. finishMove env r g m =
          (fst (checkAndFinalizeIfEnded (r\<lparr>game := Some (advanceTurn env r g)\<rparr>) (advanceTurn env r g)),
           Inr (m, e)) \<and>
        e = snd (checkAndFinalizeIfEnded (r\<lparr>game := Some (advanceTurn env r g)\<rparr>) (advanceTurn env r g))"
  by (simp add: finishMove_def Let_def split: prod.splits)

lemma finishMove_not_Inl: "finishMove env r g m \<noteq> (r', Inl e)"
  using finishMove_result[of env r g m] by auto

lemma checkCells_error:
  "checkCells b pls = Some e \<Longrightarrow> e = OUT_OF_BOUNDS \<or> e = TYPE_ERROR \<or> e = CELL_OCCUPIED"
  by (induction pls) (auto split: if_splits)

lemma checkTiles_error:
  "checkTiles ids used pls = Some e \<Longrightarrow> e = TILE_NOT_IN_RACK \<or> e = DUPLICATE_TILE"
  by (induction pls arbitrary: used) (auto split: if_splits)

lemma commitPlay_not_Inl: "commitPlay env room g idx pid pls tot main ws \<noteq> (room', Inl e)"
  by (simp add: commitPlay_def Let_def finishMove_not_Inl split: prod.splits)

lemma doPass_error: "doPass env room g idx pid \<noteq> (room', Inl e)"
  by (simp add: doPass_def Let_def finishMove_not_Inl)

lemma doExchange_error:
  "doExchange env room g idx pid ids = (room', Inl e) \<Longrightarrow>
     room' = room \<and> (e = NO_TILES_TO_EXCHANGE \<or> e = BAG_TOO_SMALL \<or> e = TILE_NOT_IN_RACK)"
  by (auto simp: doExchange_def Let_def finishMove_not_Inl split: if_splits prod.splits)

lemma doPlay_error:
  assumes "doPlay env room g idx pid pls = (room', Inl e)"
  shows "room' = room \<and> (\<forall>w. e = INVALID_WORD w \<longrightarrow> 1 < length w)"
proof -
  have fw: "find P (filter Q xs) = Some w \<Longrightarrow> Q w" for P Q and xs :: "string list" and w
    by (auto simp: find_Some_iff dest: nth_mem)
  show ?thesis
    using assms unfolding doPlay_def Let_def
    by (auto simp: commitPlay_not_Inl split: if_splits option.splits
        dest: checkCells_error checkTiles_error fw)
qed

lemma playMove_error:
  assumes "playMove env room pid act pls ids = (room', Inl e)"
  shows "room' = room \<and> (\<forall>w. e = INVALID_WORD w \<longrightarrow> 1 < length w)"
  using assms unfolding playMove_def
  by (auto split: option.splits if_splits Action.splits
      dest: doExchange_error doPlay_error simp: doPass_error)





subsection \<open>Joining a room\<close>

text \<open>
  Claim C9. \<open>joinRoom\<close> checks capacity, status and nickname before it looks the
  supplied player id up, so a returning player is rejected for their own nickname
  (compared case-insensitively) and, in a full room, for their own seat.
\<close>

theorem joinRoom_rejects_returning_player:
  "snd (joinRoom 5 ''fresh'' (storeOf lobby) ''ROOM'' ''P1'' (Some ''p1'')) = Inl NICKNAME_TAKEN \<and>
   snd (joinRoom 5 ''fresh'' (storeOf fullLobby) ''ROOM'' ''other'' (Some ''p1'')) = Inl ROOM_FULL"
  by code_simp

subsection \<open>Single-tile plays\<close>

text \<open>
  Claim C4. A single tile T (1 point) is placed at (7,8), under the C (3 points) of CAT.
  The only word formed is the column CT, worth 4; the move scores 5, because the
  one-cell row span through the tile is scored as the main word as well.
\<close>

theorem single_tile_scores_degenerate_span:
  "(case snd (playMove acceptAll catRoom ''a'' Play (Some [place 7 8 ''4'']) None) of
      Inr (mv, e) \<Rightarrow> ms_words mv = [''CT''] \<and> ms_score mv = 5
    | Inl e \<Rightarrow> False) \<and>
   scoreCells catBoard [place 7 8 ''4'']
     (buildPlacementInfo (rack (hd (players catRoom))) [place 7 8 ''4'']) [(7, 7), (7, 8)] = 4"
  by code_simp

subsection \<open>End of game after a move\<close>

lemma finishMove_props:
  assumes "finishMove env r0 g0 m = (room', Inr (mv, ended))"
  shows "checkAndFinalizeIfEnded (r0\<lparr>game := Some (advanceTurn env r0 g0)\<rparr>) (advanceTurn env r0 g0)
           = (room', ended)"
    and "game room' = Some (advanceTurn env r0 g0)"
    and "length (players room') = length (players r0)"
    and "i < length (players r0) \<Longrightarrow> player_id (players room' ! i) = player_id (players r0 ! i)"
    and "i < length (players r0) \<Longrightarrow> rack (players room' ! i) = rack (players r0 ! i)"
proof -
  let ?g = "advanceTurn env r0 g0"
  let ?r = "r0\<lparr>game := Some ?g\<rparr>"
  show c: "checkAndFinalizeIfEnded ?r ?g = (room', ended)"
    using assms finishMove_result[of env r0 g0 m] by (metis Pair_inject prod.collapse sum.inject(2))
  note sp = checkAndFinalize_spec[OF c]
  show "game room' = Some ?g"
    using sp(2,3) by (cases ended) auto
  show "length (players room') = length (players r0)"
    using sp(2,3) by (cases ended) auto
  show "i < length (players r0) \<Longrightarrow> player_id (players room' ! i) = player_id (players r0 ! i)"
    using sp(2) sp(5)[of i] by (cases ended) auto
  show "i < length (players r0) \<Longrightarrow> rack (players room' ! i) = rack (players r0 ! i)"
    using sp(2) sp(4)[of i] by (cases ended) auto
qed



subsection \<open>Turn order and version\<close>

lemma playMove_turn:
  assumes "playMove env room pid act pls ids = (room', Inr (mv, ended))"
  shows "\<exists>g g'. game room = Some g \<and> game room' = Some g' \<and>
           length (players room') = length (players room) \<and>
           turnIndex g' = (turnIndex g + 1) mod length (players room) \<and>
           turnIndex g' < length (players room') \<and>
           activePlayerId g' = player_id (players room' ! turnIndex g') \<and>
           turnEndsAt g' = clock env 1 + turnDurationMs g \<and>
           version g' = version g + 1"
proof -
  from playMove_success[OF assms] obtain g r0 g0 m where g: "game room = Some g"
    and mem: "pid \<in> player_id ` set (players room)"
    and fm: "finishMove env r0 g0 m = (room', Inr (mv, ended))" and fr: "moveFrame room g r0 g0"
    by blast
  let ?g = "advanceTurn env r0 g0"
  note fp = finishMove_props[OF fm]
  have len0: "length (players r0) = length (players room)"
    using fr by (metis moveFrame_def length_map)
  have ne: "0 < length (players room)" using mem by auto
  let ?ti = "(turnIndex g + 1) mod length (players room)"
  have ti: "turnIndex ?g = ?ti"
    using fr len0 by (simp add: advanceTurn_def Let_def moveFrame_def)
  have lt: "?ti < length (players r0)" using ne len0 by simp
  have act: "activePlayerId ?g = player_id (players r0 ! ?ti)"
    using fr len0 by (simp add: advanceTurn_def Let_def moveFrame_def)
  have "game room' = Some ?g" by (rule fp(2))
  moreover have "length (players room') = length (players room)" using fp(3) len0 by simp
  moreover have "turnIndex ?g < length (players room')" using ti lt fp(3) by simp
  moreover have "activePlayerId ?g = player_id (players room' ! turnIndex ?g)"
    using act fp(4)[OF lt] ti by simp
  moreover have "turnEndsAt ?g = clock env 1 + turnDurationMs g"
    using fr by (simp add: advanceTurn_def Let_def moveFrame_def)
  moreover have "version ?g = version g + 1"
    using fr by (simp add: advanceTurn_def Let_def moveFrame_def)
  ultimately show ?thesis using g ti by blast
qed

lemma runMoves_version:
  "game room0 = Some g0 \<Longrightarrow> runMoves room0 reqs = (roomN, n) \<Longrightarrow>
     \<exists>gN. game roomN = Some gN \<and> version gN = version g0 + int n"
proof (induction reqs arbitrary: room0 g0 roomN n)
  case Nil
  then show ?case by simp
next
  case (Cons rq reqs)
  obtain env pid act pls ids where rq: "rq = (env, pid, act, pls, ids)"
    by (cases rq) auto
  obtain room1 res where pm: "playMove env room0 pid act pls ids = (room1, res)"
    by (cases "playMove env room0 pid act pls ids")
  show ?case
  proof (cases res)
    case (Inl e)
    then have "room1 = room0" using playMove_error pm by blast
    moreover have "runMoves room1 reqs = (roomN, n)"
      using Cons.prems(2) rq pm Inl by simp
    ultimately show ?thesis using Cons.IH[OF Cons.prems(1)] by simp
  next
    case (Inr r)
    obtain mv ended where r: "r = (mv, ended)" by (cases r)
    obtain roomK k where rest: "runMoves room1 reqs = (roomK, k)"
      by (cases "runMoves room1 reqs")
    have out: "roomN = roomK" "n = Suc k"
      using Cons.prems(2) rq pm Inr rest by simp_all
    from playMove_turn[OF pm[unfolded Inr r]] Cons.prems(1)
    obtain g1 where g1: "game room1 = Some g1" "version g1 = version g0 + 1"
      by auto
    from Cons.IH[OF g1(1) rest] obtain gN where "game roomK = Some gN" "version gN = version g1 + int k"
      by auto
    then show ?thesis using out g1 by simp
  qed
qed

text \<open>
  Claim C8. A successful move (play, pass or exchange; a timer-forced pass is a pass)
  advances the turn once: the turn index becomes the old one plus one modulo the number
  of players, the active player is the player at the new index, the deadline is the
  clock reading plus the turn duration, and the version grows by one. Hence over any
  run of \<open>playMove\<close> calls the version grows by the number of calls that succeeded.
\<close>

theorem turn_advances_once:
  "(playMove env room pid act pls ids = (room', Inr (mv, ended)) \<longrightarrow>
      (\<exists>g g'. game room = Some g \<and> game room' = Some g' \<and>
           length (players room') = length (players room) \<and>
           turnIndex g' = (turnIndex g + 1) mod length (players room) \<and>
           turnIndex g' < length (players room') \<and>
           activePlayerId g' = player_id (players room' ! turnIndex g') \<and>
           turnEndsAt g' = clock env 1 + turnDurationMs g \<and>
           version g' = version g + 1)) \<and>
   (game room0 = Some g0 \<and> runMoves room0 reqs = (roomN, n) \<longrightarrow>
      (\<exists>gN. game roomN = Some gN \<and> version gN = version g0 + int n))"
  using playMove_turn runMoves_version by blast

theorem turn_advances_once_witness:
  "(\<exists>room' mv ended g'. playMove acceptAll catRoom ''a'' Pass None None = (room', Inr (mv, ended)) \<and>
      game room' = Some g' \<and> turnIndex g' = 1 \<and> activePlayerId g' = player_id (players room' ! 1) \<and>
      turnEndsAt g' = 121001 \<and> version g' = 2) \<and>
   (\<exists>gN. snd (runMoves catRoom passRun) = 2 \<and> game (fst (runMoves catRoom passRun)) = Some gN \<and>
      version gN = 3)"
proof -
  have "case snd (playMove acceptAll catRoom ''a'' Pass None None) of
          Inr (m, e) \<Rightarrow> True | Inl x \<Rightarrow> False"
    by code_simp
  then obtain room' mv ended where
    pm: "playMove acceptAll catRoom ''a'' Pass None None = (room', Inr (mv, ended))"
    by (cases "playMove acceptAll catRoom ''a'' Pass None None") (auto split: sum.splits)
  from turn_advances_once[THEN conjunct1, THEN mp, OF pm]
  obtain g g' where f: "game catRoom = Some g" "game room' = Some g'"
      "turnIndex g' = (turnIndex g + 1) mod length (players catRoom)"
      "activePlayerId g' = player_id (players room' ! turnIndex g')"
      "turnEndsAt g' = clock acceptAll 1 + turnDurationMs g" "version g' = version g + 1"
    by blast
  have A: "\<exists>room' mv ended g'. playMove acceptAll catRoom ''a'' Pass None None = (room', Inr (mv, ended)) \<and>
      game room' = Some g' \<and> turnIndex g' = 1 \<and> activePlayerId g' = player_id (players room' ! 1) \<and>
      turnEndsAt g' = 121001 \<and> version g' = 2"
    using pm f by (auto simp: catRoom_def mkRoom_def acceptAll_def)
  have n: "snd (runMoves catRoom passRun) = 2" by code_simp
  have g0: "game catRoom = Some (the (game catRoom))" by (simp add: catRoom_def mkRoom_def)
  have rm: "runMoves catRoom passRun = (fst (runMoves catRoom passRun), 2)"
    using n by (metis prod.collapse)
  from turn_advances_once[THEN conjunct2, THEN mp, OF conjI[OF g0 rm]]
  have B: "\<exists>gN. snd (runMoves catRoom passRun) = 2 \<and> game (fst (runMoves catRoom passRun)) = Some gN \<and>
      version gN = 3"
    using n by (auto simp: catRoom_def mkRoom_def)
  from A B show ?thesis by blast
qed

subsection \<open>Scoring\<close>

lemma find_mem: "find P xs = Some x \<Longrightarrow> x \<in> set xs \<and> P x"
  by (induction xs) (auto split: if_splits)

lemma find_rev_None: "find P (rev xs) = None \<longleftrightarrow> find P xs = None"
  by (simp add: find_None_iff)

lemma buildPlacementInfo_fold:
  assumes "\<forall>p \<in> set pls. rackTile rk (tileId p) \<noteq> None"
  shows "fold (\<lambda>pl m. case rackTile rk (tileId pl) of
                     Some t \<Rightarrow> m((cellX pl, cellY pl) \<mapsto> (tile_value t, letter t))
                   | None \<Rightarrow> m) pls m0 c =
         (case find (\<lambda>p. cellX p = fst c \<and> cellY p = snd c) (rev pls) of
            None \<Rightarrow> m0 c
          | Some p \<Rightarrow> map_option (\<lambda>t. (tile_value t, letter t)) (rackTile rk (tileId p)))"
  using assms
proof (induction pls rule: rev_induct)
  case Nil
  then show ?case by simp
next
  case (snoc a pls)
  then obtain t where t: "rackTile rk (tileId a) = Some t" by auto
  from snoc have ih: "fold (\<lambda>pl m. case rackTile rk (tileId pl) of
                     Some t \<Rightarrow> m((cellX pl, cellY pl) \<mapsto> (tile_value t, letter t))
                   | None \<Rightarrow> m) pls m0 c =
         (case find (\<lambda>p. cellX p = fst c \<and> cellY p = snd c) (rev pls) of
            None \<Rightarrow> m0 c
          | Some p \<Rightarrow> map_option (\<lambda>t. (tile_value t, letter t)) (rackTile rk (tileId p)))"
    by simp
  show ?case
    using ih by (cases c) (auto simp: t)
qed

lemma placement_value:
  assumes "\<forall>p \<in> set pls. rackTile rk (tileId p) \<noteq> None"
    and "placedAt pls (fst c) (snd c) = Some q"
  shows "getPlacementLetterValue (buildPlacementInfo rk pls) (fst c) (snd c) = letterValue b rk pls c"
proof -
  from assms(2) have "find (\<lambda>p. cellX p = fst c \<and> cellY p = snd c) (rev pls) \<noteq> None"
    by (simp add: placedAt_def find_rev_None)
  then obtain p where p: "find (\<lambda>p. cellX p = fst c \<and> cellY p = snd c) (rev pls) = Some p" by auto
  then have "p \<in> set pls" using find_mem by fastforce
  with assms(1) obtain t where t: "rackTile rk (tileId p) = Some t" by auto
  show ?thesis
    using buildPlacementInfo_fold[OF assms(1), of Map.empty c] p t
    by (simp add: getPlacementLetterValue_def buildPlacementInfo_def letterValue_def scoredTile_def)
qed

lemma scoreStep_spec:
  assumes "\<forall>p \<in> set pls. rackTile rk (tileId p) \<noteq> None"
  shows "scoreStep b pls (buildPlacementInfo rk pls) c (s, w) =
           (s + letterValue b rk pls c * letterMultiplier b pls c, w * wordMultiplier b pls c)"
proof (cases "placedAt pls (fst c) (snd c)")
  case None
  then have np: "\<not> newlyPlaced pls c"
    by (simp add: placedAt_def newlyPlaced_def find_None_iff list_ex_iff)
  from None have "find (\<lambda>p. cellX p = fst c \<and> cellY p = snd c) (rev pls) = None"
    by (simp add: placedAt_def find_rev_None)
  then have "letterValue b rk pls c = (case tile (cellAt b (fst c) (snd c)) of Some t \<Rightarrow> tile_value t | None \<Rightarrow> 0)"
    by (simp add: letterValue_def scoredTile_def split: option.splits)
  with None np show ?thesis
    by (simp add: scoreStep_def Let_def letterMultiplier_def wordMultiplier_def)
next
  case (Some q)
  then have np: "newlyPlaced pls c"
    by (auto simp: placedAt_def newlyPlaced_def list_ex_iff dest!: find_mem)
  note pv = placement_value[OF assms Some, of b]
  show ?thesis
    using Some np pv
    by (auto simp: scoreStep_def Let_def letterMultiplier_def wordMultiplier_def
        letterAndWordMultipliers_def split: option.splits BonusType.splits)
qed

lemma scoreCells_spec:
  assumes "\<forall>p \<in> set pls. rackTile rk (tileId p) \<noteq> None"
  shows "scoreCells b pls (buildPlacementInfo rk pls) cells = wordScore b rk pls cells"
proof -
  have "fold (scoreStep b pls (buildPlacementInfo rk pls)) cells (s, w) =
          (s + sum_list (map (\<lambda>c. letterValue b rk pls c * letterMultiplier b pls c) cells),
           w * prod_list (map (wordMultiplier b pls) cells))" for s w
    by (induction cells arbitrary: s w) (simp_all add: scoreStep_spec[OF assms] algebra_simps)
  then show ?thesis by (simp add: scoreCells_def wordScore_def)
qed

lemma moveScore_spec:
  assumes "\<forall>p \<in> set pls. rackTile rk (tileId p) \<noteq> None"
  shows "moveScore b pls (buildPlacementInfo rk pls) dir main cross =
           wordScore b rk pls (spanCells (mw_span main))
           + sum_list (map (\<lambda>cw. wordScore b rk pls (crossCells cw)) cross)
           + (if length pls = 7 then 50 else 0)"
proof -
  have "fold (\<lambda>cw tot. tot + f cw) cross a = a + sum_list (map f cross)"
    for f :: "CrossWord \<Rightarrow> int" and a
    by (induction cross arbitrary: a) auto
  then show ?thesis
    by (simp add: moveScore_def Let_def scoreWord_def scoreCrossWord_def scoreCells_spec[OF assms])
qed

lemma rackTile_mem: "rackTile rk i = Some t \<Longrightarrow> t \<in> set rk \<and> tile_id t = i"
  by (auto simp: rackTile_def dest!: find_mem)

lemma rackTile_defined: "i \<in> set (map tile_id rk) \<Longrightarrow> rackTile rk i \<noteq> None"
  by (auto simp: rackTile_def find_None_iff)

lemma finishMove_move: "finishMove env r g m = (room', Inr (mv, e)) \<Longrightarrow> mv = m"
  using finishMove_result[of env r g m] by auto

subsection \<open>Exchange\<close>

lemma shuffleFrom_mset: "i < length arr \<Longrightarrow> mset (shuffleFrom rnd i arr) = mset arr"
proof (induction i arbitrary: arr)
  case 0
  then show ?case by simp
next
  case (Suc i)
  let ?j = "rnd (Suc i) mod (Suc i + 1)"
  have "?j < Suc i + 1" by (rule mod_less_divisor) simp
  then have j: "?j < length arr" using Suc.prems by linarith
  have sw: "mset (arr[Suc i := arr ! ?j, ?j := arr ! Suc i]) = mset arr"
    using j Suc.prems by (rule mset_swap)
  have "i < length (arr[Suc i := arr ! ?j, ?j := arr ! Suc i])" using Suc.prems by simp
  from Suc.IH[OF this] sw show ?case by (simp add: Let_def)
qed

lemma shuffle_mset: "mset (shuffle rnd arr) = mset arr"
proof (cases arr)
  case Nil
  then show ?thesis by (simp add: shuffle_def)
next
  case (Cons a as)
  then have "length arr - 1 < length arr" by simp
  then show ?thesis unfolding shuffle_def by (rule shuffleFrom_mset)
qed

lemma shuffle_length: "length (shuffle rnd arr) = length arr"
  using shuffle_mset[of rnd arr] by (metis size_mset)

lemma drawTiles_spec:
  "drawTiles bg n = (out, bg') \<Longrightarrow>
     length out = min n (length bg) \<and> mset out + mset bg' = mset bg \<and>
     length bg' = length bg - min n (length bg)"
proof (induction n arbitrary: bg out bg')
  case 0
  then show ?case by auto
next
  case (Suc n)
  show ?case
  proof (cases "bg = []")
    case True
    with Suc.prems show ?thesis by auto
  next
    case False
    obtain o2 b2 where r: "drawTiles (butlast bg) n = (o2, b2)"
      by (cases "drawTiles (butlast bg) n")
    with Suc.prems False have o: "out = last bg # o2" and b: "bg' = b2" by auto
    note ih = Suc.IH[OF r]
    have ms: "mset bg = add_mset (last bg) (mset (butlast bg))"
    proof -
      have "mset bg = mset (butlast bg @ [last bg])" using False by simp
      then show ?thesis by simp
    qed
    have pos: "Suc (length (butlast bg)) = length bg" using False by simp
    have l1: "length out = min (Suc n) (length bg)" using ih o pos by (auto simp: min_def)
    have l2: "mset out + mset bg' = mset bg" using ih o b ms by simp
    have l3: "length bg' = length bg - min (Suc n) (length bg)"
      using ih b pos by (auto simp: min_def)
    from l1 l2 l3 show ?thesis by blast
  qed
qed

lemma filter_ids_length:
  assumes "distinct (map f xs)" "distinct ids" "set ids \<subseteq> f ` set xs"
  shows "length (filter (\<lambda>x. f x \<in> set ids) xs) = length ids"
proof -
  let ?ys = "filter (\<lambda>x. f x \<in> set ids) xs"
  have d: "distinct (map f ?ys)" using assms(1) by (rule distinct_map_filter)
  have "set (map f ?ys) = set ids" using assms(3) by auto
  then have "card (set (map f ?ys)) = card (set ids)" by (rule arg_cong)
  moreover have "card (set (map f ?ys)) = length (map f ?ys)" using d by (rule distinct_card)
  moreover have "card (set ids) = length ids" using assms(2) by (rule distinct_card)
  ultimately have "length (map f ?ys) = length ids" by simp
  then show ?thesis by (simp only: length_map)
qed

text \<open>
  Claim C6, as amended. When the active player exchanges \<open>k\<close> distinct tile ids, all in
  their rack (whose tile ids are distinct), and the bag holds at least \<open>k\<close> tiles, the
  exchange succeeds, the rack has the size it had, the bag has the size it had, and
  the tiles of bag and rack taken together are the same multiset as before. The bag
  alone need not be: it gives up the tiles drawn and takes the tiles returned.
\<close>

theorem exchange_round_trip:
  assumes g: "game room = Some g"
    and idx: "findIndex (\<lambda>p. player_id p = pid) (players room) = Some idx"
    and act: "activePlayerId g = pid"
    and ne: "ids \<noteq> []"
    and di: "distinct ids"
    and own: "set ids \<subseteq> tile_id ` set (rack (players room ! idx))"
    and dr: "distinct (map tile_id (rack (players room ! idx)))"
    and bg: "length ids \<le> length (bag g)"
  shows "\<exists>room' mv ended g'.
           playMove env room pid Exchange pls (Some ids) = (room', Inr (mv, ended)) \<and>
           game room' = Some g' \<and>
           length (rack (players room' ! idx)) = length (rack (players room ! idx)) \<and>
           length (bag g') = length (bag g) \<and>
           mset (bag g') + mset (rack (players room' ! idx))
             = mset (bag g) + mset (rack (players room ! idx))"
proof -
  let ?p = "players room ! idx"
  let ?rk = "rack ?p"
  let ?toReturn = "filter (\<lambda>t. tile_id t \<in> set ids) ?rk"
  let ?kept = "filter (\<lambda>t. tile_id t \<notin> set ids) ?rk"
  let ?bag1 = "shuffle (randomIndex env) (bag g @ ?toReturn)"
  obtain drawn bag2 where d: "drawTiles ?bag1 (length ids) = (drawn, bag2)"
    by (cases "drawTiles ?bag1 (length ids)")
  let ?p' = "?p\<lparr>rack := ?kept @ drawn,
                  stats := (stats ?p)\<lparr>passes := passes (stats ?p) + 1\<rparr>\<rparr>"
  let ?g1 = "g\<lparr>bag := bag2, consecutivePasses := consecutivePasses g + 1\<rparr>"
  let ?move = "buildMoveSummary env Exchange pid [] 0 ?g1 []"
  let ?g2 = "?g1\<lparr>lastMove := Some ?move, game_log := game_log ?g1 @ [?move]\<rparr>"
  let ?r0 = "room\<lparr>players := (players room)[idx := ?p']\<rparr>"
  obtain room' res where fm: "finishMove env ?r0 ?g2 ?move = (room', res)"
    by (cases "finishMove env ?r0 ?g2 ?move")
  with finishMove_result[of env ?r0 ?g2 ?move] obtain e where res: "res = Inr (?move, e)"
    by auto
  have inrack: "\<not> list_ex (\<lambda>i. i \<notin> set (map tile_id ?rk)) ids"
    using own by (auto simp: list_ex_iff)
  have de: "doExchange env room g idx pid ids = (room', Inr (?move, e))"
    using ne bg inrack fm res unfolding doExchange_def Let_def d prod.case
    by (simp del: set_map)
  have pm: "playMove env room pid Exchange pls (Some ids) = (room', Inr (?move, e))"
    using g idx act de by (simp add: playMove_def)
  have il: "idx < length (players room)" using findIndex_Some[OF idx] by simp
  note fp = finishMove_props[OF fm[unfolded res]]
  have g': "game room' = Some (advanceTurn env ?r0 ?g2)" by (rule fp(2))
  have bag': "bag (advanceTurn env ?r0 ?g2) = bag2"
    by (simp add: advanceTurn_def Let_def)
  have rack': "rack (players room' ! idx) = ?kept @ drawn"
    using fp(5)[of idx] il by simp
  have k: "length ?toReturn = length ids"
    using dr di own by (rule filter_ids_length)
  have part: "mset ?toReturn + mset ?kept = mset ?rk"
    by (simp add: multiset_partition[symmetric] del: set_map)
  have lenpart: "length ?toReturn + length ?kept = length ?rk"
    using part by (metis size_mset size_union)
  have b1: "mset ?bag1 = mset (bag g) + mset ?toReturn" and l1: "length ?bag1 = length (bag g) + length ids"
    using k by (simp_all add: shuffle_mset shuffle_length)
  note ds = drawTiles_spec[OF d]
  have ld: "length drawn = length ids" using ds l1 by simp
  have lb: "length bag2 = length (bag g)" using ds l1 by simp
  have lr: "length (?kept @ drawn) = length ?rk" using ld k lenpart by simp
  have "mset bag2 + mset (?kept @ drawn) = (mset drawn + mset bag2) + mset ?kept"
    by simp
  also have "\<dots> = mset (bag g) + (mset ?toReturn + mset ?kept)"
    using ds b1 by simp
  finally have ms: "mset bag2 + mset (?kept @ drawn) = mset (bag g) + mset ?rk"
    using part by simp
  from pm g' bag' rack' lr lb ms show ?thesis by auto
qed

text \<open>
  Claim C6 as stated fails on the bag: exchanging the D of the CAT position with a
  shuffle that moves tiles succeeds and leaves D in the bag in place of Z.
\<close>

theorem exchange_bag_changes_counterexample:
  "(case snd (playMove swapFirst catRoom ''a'' Exchange None (Some [''1''])) of
      Inr (mv, e) \<Rightarrow> True | Inl x \<Rightarrow> False) \<and>
   length [''1''] \<le> length (bag (the (game catRoom))) \<and>
   set [''1''] \<subseteq> tile_id ` set (rack (players catRoom ! 0)) \<and>
   mset (bag (the (game (fst (playMove swapFirst catRoom ''a'' Exchange None (Some [''1'']))))))
     \<noteq> mset (bag (the (game catRoom)))"
proof -
  let ?after = "bag (the (game (fst (playMove swapFirst catRoom ''a'' Exchange None (Some [''1''])))))"
  have ok: "case snd (playMove swapFirst catRoom ''a'' Exchange None (Some [''1''])) of
      Inr (mv, e) \<Rightarrow> True | Inl x \<Rightarrow> False"
    by code_simp
  have pre: "length [''1''] \<le> length (bag (the (game catRoom))) \<and>
             set [''1''] \<subseteq> tile_id ` set (rack (players catRoom ! 0))"
    by (simp add: catRoom_def mkRoom_def mkPlayer_def mkTile_def)
  have a: "mkTile ''1'' ''D'' 2 \<in> set ?after" by code_simp
  have b: "mkTile ''1'' ''D'' 2 \<notin> set (bag (the (game catRoom)))"
    by (simp add: catRoom_def mkRoom_def mkTile_def)
  have "mset ?after \<noteq> mset (bag (the (game catRoom)))"
    using a b by (metis mset_eq_setD)
  with ok pre show ?thesis by blast
qed

theorem exchange_round_trip_witness:
  "\<exists>room' mv ended g'.
      playMove acceptAll catRoom ''a'' Exchange None (Some [''1'', ''3'']) = (room', Inr (mv, ended)) \<and>
      game room' = Some g' \<and> length (rack (players room' ! 0)) = 5 \<and> length (bag g') = 2 \<and>
      mset (bag g') + mset (rack (players room' ! 0))
        = mset (bag (the (game catRoom))) + mset (rack (players catRoom ! 0))"
proof -
  have h1: "game catRoom = Some (the (game catRoom))" by (simp add: catRoom_def mkRoom_def)
  have h2: "findIndex (\<lambda>p. player_id p = ''a'') (players catRoom) = Some 0"
    by (simp add: catRoom_def mkRoom_def mkPlayer_def)
  have h3: "activePlayerId (the (game catRoom)) = ''a''" by (simp add: catRoom_def mkRoom_def)
  have h4: "[''1'', ''3''] \<noteq> []" by simp
  have h5: "distinct [''1'', ''3'']" by simp
  have h6: "set [''1'', ''3''] \<subseteq> tile_id ` set (rack (players catRoom ! 0))"
    by (simp add: catRoom_def mkRoom_def mkPlayer_def mkTile_def)
  have h7: "distinct (map tile_id (rack (players catRoom ! 0)))"
    by (simp add: catRoom_def mkRoom_def mkPlayer_def mkTile_def)
  have h8: "length [''1'', ''3''] \<le> length (bag (the (game catRoom)))"
    by (simp add: catRoom_def mkRoom_def)
  have l1: "length (rack (players catRoom ! 0)) = 5" and l2: "length (bag (the (game catRoom))) = 2"
    by (simp_all add: catRoom_def mkRoom_def mkPlayer_def)
  from exchange_round_trip[OF h1 h2 h3 h4 h5 h6 h7 h8, of acceptAll None] l1 l2
  show ?thesis by auto
qed

subsection \<open>Jokers\<close>

lemma list_all_update: "list_all P xs \<Longrightarrow> P x \<Longrightarrow> list_all P (xs[i := x])"
  by (auto simp: list_all_iff dest: set_update_subset_insert[THEN subsetD])

lemma placeTile_blank:
  assumes "list_all jokerBlank rk" "list_all (list_all cellBlank) b"
  shows "list_all (list_all cellBlank) (placeTile pid tn rk pl b)"
proof (cases "rackTile rk (tileId pl)")
  case None
  then show ?thesis using assms by (simp add: placeTile_def)
next
  case (Some t)
  then have "t \<in> set rk" using rackTile_mem by blast
  then have jb: "jokerBlank t" using assms(1) by (simp add: list_all_iff)
  let ?copy = "\<lparr>tile_id = tile_id t, letter = letter t, tile_value = tile_value t, isJoker = isJoker t,
                 fromPlayerId = pid, turnPlayed = tn\<rparr>"
  let ?cell1 = "(cellAt b (cellX pl) (cellY pl))\<lparr>tile := Some ?copy\<rparr>"
  let ?cell2 = "if bonus ?cell1 \<noteq> None then ?cell1\<lparr>bonusUsed := True\<rparr> else ?cell1"
  have c2: "cellBlank ?cell2" using jb by (simp add: cellBlank_def jokerBlank_def)
  have eq: "placeTile pid tn rk pl b = b[nat (cellY pl) := (b ! nat (cellY pl))[nat (cellX pl) := ?cell2]]"
    using Some by (simp add: placeTile_def Let_def)
  show ?thesis
  proof (cases "nat (cellY pl) < length b")
    case True
    then have "list_all cellBlank (b ! nat (cellY pl))"
      using assms(2) by (simp add: list_all_length)
    then have "list_all cellBlank ((b ! nat (cellY pl))[nat (cellX pl) := ?cell2])"
      using c2 by (rule list_all_update)
    with assms(2) show ?thesis unfolding eq by (rule list_all_update)
  next
    case False
    then have "b[nat (cellY pl) := (b ! nat (cellY pl))[nat (cellX pl) := ?cell2]] = b"
      by (intro list_update_beyond) simp
    then show ?thesis using assms(2) unfolding eq by (simp only:)
  qed
qed

lemma placeTile_boardOK:
  assumes ok: "boardOK b"
  shows "boardOK (placeTile pid tn rk pl b)"
proof -
  have upd: "boardOK (b[i := (b ! i)[j := c]])" for i j c
  proof (cases "i < length b")
    case True
    then show ?thesis
      using ok by (auto simp: boardOK_def list_all_length nth_list_update)
  next
    case False
    then have "b[i := (b ! i)[j := c]] = b" by (intro list_update_beyond) simp
    then show ?thesis using ok by (simp only:)
  qed
  show ?thesis
    using ok upd by (simp add: placeTile_def Let_def split: option.splits)
qed

lemma fold_placeTile_boardOK: "boardOK b \<Longrightarrow> boardOK (fold (placeTile pid tn rk) pls b)"
  by (induction pls arbitrary: b) (simp_all add: placeTile_boardOK)

lemma fold_placeTile_blank:
  "list_all jokerBlank rk \<Longrightarrow> list_all (list_all cellBlank) b \<Longrightarrow>
     list_all (list_all cellBlank) (fold (placeTile pid tn rk) pls b)"
  by (induction pls arbitrary: b) (simp_all add: placeTile_blank)

lemma drawTiles_blank:
  assumes "drawTiles bg n = (out, bg')" "list_all jokerBlank bg"
  shows "list_all jokerBlank out \<and> list_all jokerBlank bg'"
proof -
  from drawTiles_spec[OF assms(1)] have "set_mset (mset out + mset bg') = set_mset (mset bg)"
    by simp
  then have "set out \<union> set bg' = set bg" by simp
  with assms(2) show ?thesis by (auto simp: list_all_iff)
qed

lemma shuffle_blank: "list_all P (shuffle rnd arr) = list_all P arr"
  using mset_eq_setD[OF shuffle_mset[of rnd arr]] by (simp add: list_all_iff)

lemma list_all_filter: "list_all P xs \<Longrightarrow> list_all P (filter Q xs)"
  by (simp add: list_all_iff)

lemma finishMove_blank:
  assumes "finishMove env r0 g0 m = (room', res)"
    and "list_all (\<lambda>p. list_all jokerBlank (rack p)) (players r0)" "gameBlank g0"
  shows "jokersBlank room'"
proof -
  from finishMove_result[of env r0 g0 m] assms(1) obtain e where res: "res = Inr (m, e)" by auto
  note fp = finishMove_props[OF assms(1)[unfolded res]]
  have "list_all (\<lambda>p. list_all jokerBlank (rack p)) (players room')"
    using assms(2) fp(3) fp(5) by (simp add: list_all_length)
  moreover have "gameBlank (advanceTurn env r0 g0)"
    using assms(3) by (simp add: gameBlank_def advanceTurn_def Let_def)
  ultimately show ?thesis using fp(2) by (simp add: jokersBlank_def)
qed

lemma players_update_blank:
  "list_all (\<lambda>p. list_all jokerBlank (rack p)) ps \<Longrightarrow> list_all jokerBlank (rack p') \<Longrightarrow>
     list_all (\<lambda>p. list_all jokerBlank (rack p)) (ps[i := p'])"
  by (rule list_all_update)

lemma doPass_blank:
  assumes "doPass env room g idx pid = (room', res)" "jokersBlank room" "game room = Some g"
    "idx < length (players room)"
  shows "jokersBlank room'"
proof -
  have rk: "list_all (\<lambda>p. list_all jokerBlank (rack p)) (players room)" and gb: "gameBlank g"
    using assms(2,3) by (simp_all add: jokersBlank_def)
  let ?p = "players room ! idx"
  let ?p' = "?p\<lparr>stats := (stats ?p)\<lparr>passes := passes (stats ?p) + 1\<rparr>\<rparr>"
  let ?g1 = "g\<lparr>consecutivePasses := consecutivePasses g + 1\<rparr>"
  let ?m = "buildMoveSummary env Pass pid [] 0 ?g1 []"
  let ?g2 = "?g1\<lparr>lastMove := Some ?m, game_log := game_log ?g1 @ [?m]\<rparr>"
  let ?r0 = "room\<lparr>players := (players room)[idx := ?p']\<rparr>"
  have fm: "finishMove env ?r0 ?g2 ?m = (room', res)"
    using assms(1) by (simp add: doPass_def Let_def)
  have "list_all jokerBlank (rack ?p')" using rk assms(4) by (simp add: list_all_length)
  then have a: "list_all (\<lambda>p. list_all jokerBlank (rack p)) (players ?r0)"
    using rk by (simp add: players_update_blank)
  have b: "gameBlank ?g2" using gb by (simp add: gameBlank_def)
  from finishMove_blank[OF fm a b] show ?thesis .
qed

lemma doExchange_blank:
  assumes "doExchange env room g idx pid ids = (room', res)" "jokersBlank room" "game room = Some g"
    "idx < length (players room)"
  shows "jokersBlank room'"
proof (cases res)
  case (Inl e)
  then show ?thesis using assms(1,2) doExchange_error by blast
next
  case (Inr r)
  have rk: "list_all (\<lambda>p. list_all jokerBlank (rack p)) (players room)" and gb: "gameBlank g"
    using assms(2,3) by (simp_all add: jokersBlank_def)
  let ?p = "players room ! idx"
  have rp: "list_all jokerBlank (rack ?p)" using rk assms(4) by (simp add: list_all_length)
  let ?toReturn = "filter (\<lambda>t. tile_id t \<in> set ids) (rack ?p)"
  let ?kept = "filter (\<lambda>t. tile_id t \<notin> set ids) (rack ?p)"
  let ?bag1 = "shuffle (randomIndex env) (bag g @ ?toReturn)"
  obtain drawn bag2 where d: "drawTiles ?bag1 (length ids) = (drawn, bag2)"
    by (cases "drawTiles ?bag1 (length ids)")
  let ?p' = "?p\<lparr>rack := ?kept @ drawn,
                  stats := (stats ?p)\<lparr>passes := passes (stats ?p) + 1\<rparr>\<rparr>"
  let ?g1 = "g\<lparr>bag := bag2, consecutivePasses := consecutivePasses g + 1\<rparr>"
  let ?m = "buildMoveSummary env Exchange pid [] 0 ?g1 []"
  let ?g2 = "?g1\<lparr>lastMove := Some ?m, game_log := game_log ?g1 @ [?m]\<rparr>"
  let ?r0 = "room\<lparr>players := (players room)[idx := ?p']\<rparr>"
  have fm: "finishMove env ?r0 ?g2 ?m = (room', res)"
    using assms(1) Inr unfolding doExchange_def Let_def d prod.case
    by (simp split: if_splits)
  have "list_all jokerBlank ?bag1"
    using gb rp by (simp add: shuffle_blank gameBlank_def list_all_filter)
  from drawTiles_blank[OF d this] have db: "list_all jokerBlank drawn" "list_all jokerBlank bag2"
    by simp_all
  have "list_all jokerBlank (rack ?p')" using rp db by (simp add: list_all_filter)
  then have a: "list_all (\<lambda>p. list_all jokerBlank (rack p)) (players ?r0)"
    using rk by (simp add: players_update_blank)
  have b: "gameBlank ?g2" using gb db by (simp add: gameBlank_def)
  from finishMove_blank[OF fm a b] show ?thesis .
qed

lemma commitPlay_blank:
  assumes "commitPlay env room g idx pid pls tot main ws = (room', res)" "jokersBlank room"
    "game room = Some g" "idx < length (players room)"
  shows "jokersBlank room'"
proof -
  have rk: "list_all (\<lambda>p. list_all jokerBlank (rack p)) (players room)" and gb: "gameBlank g"
    using assms(2,3) by (simp_all add: jokersBlank_def)
  let ?p = "players room ! idx"
  have rp: "list_all jokerBlank (rack ?p)" using rk assms(4) by (simp add: list_all_length)
  let ?kept = "filter (\<lambda>t. tile_id t \<notin> set (map tileId pls)) (rack ?p)"
  let ?n = "nat (min (7 - int (length ?kept)) (int (length (bag g))))"
  obtain drawn bag2 where d: "drawTiles (bag g) ?n = (drawn, bag2)"
    by (cases "drawTiles (bag g) ?n")
  from drawTiles_blank[OF d] gb have db: "list_all jokerBlank drawn" "list_all jokerBlank bag2"
    by (simp_all add: gameBlank_def)
  let ?board' = "fold (placeTile pid (version g + 1) (rack ?p)) pls (board g)"
  have bb: "list_all (list_all cellBlank) ?board'" "boardOK ?board'"
    using rp gb by (simp_all add: fold_placeTile_blank fold_placeTile_boardOK gameBlank_def)
  from assms(1) obtain p' g2 m where fm: "finishMove env (room\<lparr>players := (players room)[idx := p']\<rparr>) g2 m = (room', res)"
    and p': "rack p' = ?kept @ drawn" and g2: "bag g2 = bag2" "board g2 = ?board'"
    unfolding commitPlay_def Let_def d prod.case by force
  have "list_all jokerBlank (rack p')" using rp db p' by (simp add: list_all_filter)
  then have a: "list_all (\<lambda>p. list_all jokerBlank (rack p)) (players (room\<lparr>players := (players room)[idx := p']\<rparr>))"
    using rk by (simp add: players_update_blank)
  have b: "gameBlank g2" using bb db g2 by (simp add: gameBlank_def)
  from finishMove_blank[OF fm a b] show ?thesis .
qed

lemma doPlay_result:
  "doPlay env room g idx pid pls = (room', res) \<Longrightarrow>
     (room' = room \<and> (\<exists>e. res = Inl e)) \<or>
     (\<exists>tot main ws. commitPlay env room g idx pid pls tot main ws = (room', res))"
  unfolding doPlay_def Let_def
  by (auto split: if_splits option.splits)

lemma playMove_blank:
  assumes "playMove env room pid act pls ids = (room', res)" "jokersBlank room"
  shows "jokersBlank room'"
proof (cases res)
  case (Inl e)
  then show ?thesis using assms playMove_error by blast
next
  case (Inr r)
  obtain mv ended where r: "r = (mv, ended)" by (cases r)
  from assms(1) Inr obtain g idx where g: "game room = Some g"
    and idx: "findIndex (\<lambda>p. player_id p = pid) (players room) = Some idx"
    and br: "(case act of
                Pass \<Rightarrow> doPass env room g idx pid
              | Exchange \<Rightarrow> doExchange env room g idx pid (case ids of Some i \<Rightarrow> i | None \<Rightarrow> [])
              | Play \<Rightarrow> doPlay env room g idx pid (case pls of Some p \<Rightarrow> p | None \<Rightarrow> []))
             = (room', res)"
    unfolding playMove_def by (auto split: option.splits if_splits)
  have il: "idx < length (players room)" using findIndex_Some[OF idx] by simp
  show ?thesis
  proof (cases act)
    case Play
    with br have dp: "doPlay env room g idx pid (case pls of Some p \<Rightarrow> p | None \<Rightarrow> []) = (room', res)"
      by simp
    from doPlay_result[OF dp] Inr
    obtain tot main ws where "commitPlay env room g idx pid (case pls of Some p \<Rightarrow> p | None \<Rightarrow> [])
        tot main ws = (room', res)"
      by blast
    from commitPlay_blank[OF this assms(2) g il] show ?thesis .
  next
    case Pass
    with br have "doPass env room g idx pid = (room', res)" by simp
    from doPass_blank[OF this assms(2) g il] show ?thesis .
  next
    case Exchange
    with br have "doExchange env room g idx pid (case ids of Some i \<Rightarrow> i | None \<Rightarrow> []) = (room', res)"
      by simp
    from doExchange_blank[OF this assms(2) g il] show ?thesis .
  qed
qed

lemma distribution_blank:
  "list_all (\<lambda>d. if ld_isJoker d then ld_letter d = [] \<and> ld_value d = 0 else True)
     (getLetterDistribution lang)"
  by (cases lang)
     (simp_all add: getLetterDistribution_def letterDistributionFR_def letterDistributionEN_def
        mkLetter_def)

lemma buildBag_blank:
  "list_all (\<lambda>d. if ld_isJoker d then ld_letter d = [] \<and> ld_value d = 0 else True) ds \<Longrightarrow>
     list_all jokerBlank (buildBag env k ds)"
  by (induction ds arbitrary: k) (auto simp: list_all_iff jokerBlank_def)

lemma dealRacks_blank:
  "dealRacks ps bg = (ps', bg') \<Longrightarrow> list_all jokerBlank bg \<Longrightarrow>
     list_all (\<lambda>p. list_all jokerBlank (rack p)) ps' \<and> list_all jokerBlank bg'"
proof (induction ps arbitrary: bg ps' bg')
  case Nil
  then show ?case by simp
next
  case (Cons p ps)
  obtain out b1 where d: "drawTiles bg 7 = (out, b1)" by (cases "drawTiles bg 7")
  obtain qs b2 where r: "dealRacks ps b1 = (qs, b2)" by (cases "dealRacks ps b1")
  from Cons.prems(1) d r have e: "ps' = p\<lparr>rack := out\<rparr> # qs" "bg' = b2" by simp_all
  from drawTiles_blank[OF d Cons.prems(2)] have o: "list_all jokerBlank out" "list_all jokerBlank b1"
    by simp_all
  from Cons.IH[OF r o(2)] o(1) e show ?case by simp
qed

lemma newBoard_blank: "list_all (list_all cellBlank) newBoard \<and> boardOK newBoard"
  by code_simp

lemma startNewGame_blank:
  assumes "startNewGame env lang room = Inr room1"
  shows "jokersBlank room1"
proof -
  let ?bag0 = "shuffle (randomIndex env) (buildBag env 0 (getLetterDistribution lang))"
  obtain ps' bag1 where d: "dealRacks (map resetPlayer (players room)) ?bag0 = (ps', bag1)"
    by (cases "dealRacks (map resetPlayer (players room)) ?bag0")
  have "list_all jokerBlank ?bag0"
    by (simp add: shuffle_blank buildBag_blank distribution_blank)
  from dealRacks_blank[OF d this] have b: "list_all (\<lambda>p. list_all jokerBlank (rack p)) ps'"
    "list_all jokerBlank bag1" by simp_all
  from assms have "players room1 = ps' \<and> (\<exists>g. game room1 = Some g \<and> bag g = bag1 \<and> board g = newBoard)"
    unfolding startNewGame_def Let_def d prod.case by (auto split: if_splits)
  with b newBoard_blank show ?thesis by (auto simp: jokersBlank_def gameBlank_def)
qed

lemma placeTile_stores:
  assumes "rackTile rk (tileId pl) = Some t" "nat (cellY pl) < length b"
    "nat (cellX pl) < length (b ! nat (cellY pl))"
  shows "tile (cellAt (placeTile pid tn rk pl b) (cellX pl) (cellY pl)) =
           Some \<lparr>tile_id = tile_id t, letter = letter t, tile_value = tile_value t,
                 isJoker = isJoker t, fromPlayerId = pid, turnPlayed = tn\<rparr>"
  using assms by (simp add: placeTile_def Let_def cellAt_def)

subsection \<open>The board after a play\<close>

text \<open>
  A play that succeeds has passed both validation loops, so every placement names a cell
  of the board and a tile of the rack; the board it leaves holds, at every placed cell, a
  copy of that rack tile with the mover and the turn added, and is as before elsewhere.
\<close>

lemma checkCells_None:
  "checkCells b pls = None \<longleftrightarrow>
     (\<forall>pl \<in> set pls. 0 \<le> px pl \<and> px pl < 15 \<and> 0 \<le> py pl \<and> py pl < 15 \<and>
        isInteger (px pl) \<and> isInteger (py pl) \<and> tile (cellAt b (cellX pl) (cellY pl)) = None)"
  by (induction pls) (auto simp: not_less not_le)

lemma cell_in_bounds:
  assumes "0 \<le> px pl" "px pl < 15" "0 \<le> py pl" "py pl < 15"
  shows "0 \<le> cellX pl \<and> cellX pl < 15 \<and> 0 \<le> cellY pl \<and> cellY pl < 15"
  using assms unfolding cellX_def cellY_def by (simp add: floor_less_iff)

lemma checkTiles_None:
  "checkTiles ids used pls = None \<longleftrightarrow>
     (\<forall>pl \<in> set pls. tileId pl \<in> ids \<and> tileId pl \<notin> used) \<and> distinct (map tileId pls)"
proof (induction pls arbitrary: used)
  case Nil
  then show ?case by simp
next
  case (Cons a pls)
  have "checkTiles ids used (a # pls) = None \<longleftrightarrow>
          tileId a \<in> ids \<and> tileId a \<notin> used \<and> checkTiles ids (insert (tileId a) used) pls = None"
    by simp
  also have "\<dots> \<longleftrightarrow> tileId a \<in> ids \<and> tileId a \<notin> used \<and>
          ((\<forall>pl \<in> set pls. tileId pl \<in> ids \<and> tileId pl \<notin> insert (tileId a) used) \<and>
           distinct (map tileId pls))"
    by (simp only: Cons.IH)
  also have "\<dots> \<longleftrightarrow> (\<forall>pl \<in> set (a # pls). tileId pl \<in> ids \<and> tileId pl \<notin> used) \<and>
          distinct (map tileId (a # pls))"
    by (auto simp: image_iff)
  finally show ?case .
qed

lemma doPlay_valid:
  assumes "doPlay env room g idx pid pls = (room', Inr (mv, e))"
  shows "checkCells (board g) pls = None"
    and "checkTiles (set (map tile_id (rack (players room ! idx)))) {} pls = None"
    and "\<exists>tot main ws. commitPlay env room g idx pid pls tot main ws = (room', Inr (mv, e))"
  using assms unfolding doPlay_def Let_def
  by (auto split: if_splits option.splits)

lemma commitPlay_board:
  assumes "commitPlay env room g idx pid pls tot main ws = (room', Inr (mv, e))"
  shows "\<exists>g'. game room' = Some g' \<and>
           board g' = fold (placeTile pid (version g + 1) (rack (players room ! idx))) pls (board g)"
proof -
  let ?kept = "filter (\<lambda>t. tile_id t \<notin> set (map tileId pls)) (rack (players room ! idx))"
  let ?n = "nat (min (7 - int (length ?kept)) (int (length (bag g))))"
  obtain drawn bag2 where d: "drawTiles (bag g) ?n = (drawn, bag2)"
    by (cases "drawTiles (bag g) ?n")
  let ?board' = "fold (placeTile pid (version g + 1) (rack (players room ! idx))) pls (board g)"
  from assms obtain r0 g2 m where fm: "finishMove env r0 g2 m = (room', Inr (mv, e))"
    and g2: "board g2 = ?board'"
    unfolding commitPlay_def Let_def d prod.case by force
  from finishMove_props(2)[OF fm] have "game room' = Some (advanceTurn env r0 g2)" .
  moreover have "board (advanceTurn env r0 g2) = ?board'"
    using g2 by (simp add: advanceTurn_def Let_def)
  ultimately show ?thesis by blast
qed

lemma cellAt_update:
  assumes "boardOK b" "0 \<le> x" "x < 15" "0 \<le> y" "y < 15" "0 \<le> x'" "x' < 15" "0 \<le> y'" "y' < 15"
  shows "cellAt (b[nat y' := (b ! nat y')[nat x' := c]]) x y =
           (if x = x' \<and> y = y' then c else cellAt b x y)"
proof -
  have len: "length b = 15" and row: "\<And>n. n < 15 \<Longrightarrow> length (b ! n) = 15"
    using assms(1) by (simp_all add: boardOK_def list_all_length)
  have ny: "nat y < 15" "nat y' < 15" "nat x < 15" "nat x' < 15" using assms by simp_all
  have eqy: "nat y = nat y' \<longleftrightarrow> y = y'" and eqx: "nat x = nat x' \<longleftrightarrow> x = x'"
    using assms by auto
  show ?thesis
    using len row[OF ny(2)] ny eqy eqx
    by (auto simp: cellAt_def nth_list_update)
qed

lemma placeTile_cell:
  assumes "boardOK b" "rackTile rk (tileId pl) = Some t"
    "0 \<le> cellX pl" "cellX pl < 15" "0 \<le> cellY pl" "cellY pl < 15"
    "0 \<le> x" "x < 15" "0 \<le> y" "y < 15"
  shows "tile (cellAt (placeTile who tn rk pl b) x y) =
           (if cellX pl = x \<and> cellY pl = y then Some (onBoard who tn t) else tile (cellAt b x y))"
  using assms cellAt_update[OF assms(1) assms(7-10) assms(3-6)]
  by (auto simp: placeTile_def Let_def onBoard_def)

lemma fold_placeTile_cells:
  assumes "boardOK b"
    and "\<forall>p \<in> set pls. rackTile rk (tileId p) \<noteq> None \<and>
           0 \<le> cellX p \<and> cellX p < 15 \<and> 0 \<le> cellY p \<and> cellY p < 15"
    and "0 \<le> x" "x < 15" "0 \<le> y" "y < 15"
  shows "tile (cellAt (fold (placeTile who tn rk) pls b) x y) =
           (case find (\<lambda>p. cellX p = x \<and> cellY p = y) (rev pls) of
              Some p \<Rightarrow> map_option (onBoard who tn) (rackTile rk (tileId p))
            | None \<Rightarrow> tile (cellAt b x y))"
  using assms(2)
proof (induction pls rule: rev_induct)
  case Nil
  then show ?case by simp
next
  case (snoc a pls)
  then obtain t where t: "rackTile rk (tileId a) = Some t" by auto
  have ih: "tile (cellAt (fold (placeTile who tn rk) pls b) x y) =
           (case find (\<lambda>p. cellX p = x \<and> cellY p = y) (rev pls) of
              Some p \<Rightarrow> map_option (onBoard who tn) (rackTile rk (tileId p))
            | None \<Rightarrow> tile (cellAt b x y))"
    using snoc by simp
  have ok: "boardOK (fold (placeTile who tn rk) pls b)"
    using assms(1) by (rule fold_placeTile_boardOK)
  have inb: "0 \<le> cellX a" "cellX a < 15" "0 \<le> cellY a" "cellY a < 15" using snoc.prems by simp_all
  show ?case
    using placeTile_cell[OF ok t inb assms(3-6), of who tn] ih t
    by simp
qed

lemma newlyPlaced_find:
  "newlyPlaced pls c \<longleftrightarrow> find (\<lambda>p. cellX p = fst c \<and> cellY p = snd c) (rev pls) \<noteq> None"
  by (auto simp: newlyPlaced_def list_ex_iff find_None_iff)

lemma boardCoords_iff: "c \<in> set boardCoords \<longleftrightarrow> 0 \<le> fst c \<and> fst c < 15 \<and> 0 \<le> snd c \<and> snd c < 15"
proof (cases c)
  case (Pair a b)
  have "(a, b) \<in> set boardCoords \<longleftrightarrow> b \<in> {0..14} \<and> a \<in> {0..14}"
    unfolding boardCoords_def by (auto simp: image_iff)
  then show ?thesis using Pair by auto
qed

lemma play_board:
  assumes ok: "boardOK (board g)"
    and g: "game room = Some g"
    and idx: "findIndex (\<lambda>p. player_id p = pid) (players room) = Some idx"
    and pm: "playMove env room pid Play (Some pls) ids = (room', Inr (mv, ended))"
    and c: "c \<in> set boardCoords"
  shows "\<exists>g'. game room' = Some g' \<and>
           tile (cellAt (board g') (fst c) (snd c)) =
             (if newlyPlaced pls c
              then map_option (onBoard pid (version g + 1))
                     (scoredTile (board g) (rack (players room ! idx)) pls c)
              else tile (cellAt (board g) (fst c) (snd c)))"
proof -
  let ?rk = "rack (players room ! idx)"
  have dp: "doPlay env room g idx pid pls = (room', Inr (mv, ended))"
    using g idx pm by (auto simp: playMove_def split: if_splits)
  note v = doPlay_valid[OF dp]
  from v(3) obtain tot main ws where
    cp: "commitPlay env room g idx pid pls tot main ws = (room', Inr (mv, ended))" by blast
  from commitPlay_board[OF cp] obtain g' where g': "game room' = Some g'"
    and b': "board g' = fold (placeTile pid (version g + 1) ?rk) pls (board g)" by blast
  have inr: "\<forall>p \<in> set pls. rackTile ?rk (tileId p) \<noteq> None"
    using v(2) rackTile_defined by (auto simp: checkTiles_None simp del: set_map)
  have inb: "\<forall>p \<in> set pls. 0 \<le> cellX p \<and> cellX p < 15 \<and> 0 \<le> cellY p \<and> cellY p < 15"
    using v(1) cell_in_bounds by (simp add: checkCells_None)
  have cb: "0 \<le> fst c" "fst c < 15" "0 \<le> snd c" "snd c < 15" using c by (simp_all add: boardCoords_iff)
  have "tile (cellAt (board g') (fst c) (snd c)) =
           (case find (\<lambda>p. cellX p = fst c \<and> cellY p = snd c) (rev pls) of
              Some p \<Rightarrow> map_option (onBoard pid (version g + 1)) (rackTile ?rk (tileId p))
            | None \<Rightarrow> tile (cellAt (board g) (fst c) (snd c)))"
    unfolding b' using ok inr inb cb by (intro fold_placeTile_cells) auto
  then have "tile (cellAt (board g') (fst c) (snd c)) =
             (if newlyPlaced pls c
              then map_option (onBoard pid (version g + 1)) (scoredTile (board g) ?rk pls c)
              else tile (cellAt (board g) (fst c) (snd c)))"
    by (auto simp: newlyPlaced_find scoredTile_def split: option.splits)
  with g' show ?thesis by blast
qed

subsection \<open>Jokers on the board\<close>

lemma cellAt_blank:
  assumes "boardOK b" "list_all (list_all cellBlank) b" "c \<in> set boardCoords"
  shows "cellBlank (cellAt b (fst c) (snd c))"
proof -
  have cb: "nat (fst c) < 15" "nat (snd c) < 15" using assms(3) by (auto simp: boardCoords_iff)
  have "length b = 15" "length (b ! nat (snd c)) = 15"
    using assms(1) cb by (simp_all add: boardOK_def list_all_length)
  then show ?thesis
    using assms(2) cb by (simp add: cellAt_def list_all_length)
qed

lemma scoredTile_blank:
  assumes "list_all jokerBlank rk" "boardOK b" "list_all (list_all cellBlank) b"
    "c \<in> set boardCoords" "scoredTile b rk pls c = Some t"
  shows "jokerBlank t"
proof (cases "find (\<lambda>p. cellX p = fst c \<and> cellY p = snd c) (rev pls)")
  case None
  with assms(5) obtain u where u: "tile (cellAt b (fst c) (snd c)) = Some u"
    and t: "t = \<lparr>tile_id = tile_id u, letter = letter u, tile_value = tile_value u, isJoker = isJoker u\<rparr>"
    by (auto simp: scoredTile_def split: option.splits)
  from cellAt_blank[OF assms(2,3,4)] u have "jokerBlank u" by (simp add: cellBlank_def)
  with t show ?thesis by (simp add: jokerBlank_def)
next
  case (Some p)
  with assms(5) have "rackTile rk (tileId p) = Some t" by (simp add: scoredTile_def)
  then have "t \<in> set rk" using rackTile_mem by blast
  with assms(1) show ?thesis by (simp add: list_all_iff)
qed

lemma joker_scores_nothing:
  assumes "list_all jokerBlank rk" "boardOK b" "list_all (list_all cellBlank) b"
    and "\<forall>p \<in> set pls. rackTile rk (tileId p) \<noteq> None"
    and "c \<in> set boardCoords" "scoredTile b rk pls c = Some t" "isJoker t"
  shows "scoreStep b pls (buildPlacementInfo rk pls) c (s, w) = (s, w * wordMultiplier b pls c)"
proof -
  from scoredTile_blank[OF assms(1,2,3,5,6)] assms(7) have "tile_value t = 0"
    by (simp add: jokerBlank_def)
  then have "letterValue b rk pls c = 0" using assms(6) by (simp add: letterValue_def)
  then show ?thesis using scoreStep_spec[OF assms(4), of b c s w] by simp
qed

text \<open>
  Claim C5, as amended. Every joker that \<open>startNewGame\<close> puts into the bag and the racks
  has an empty letter and the value 0, and \<open>playMove\<close> keeps it so for every tile of the
  bag, the racks and the board. After a successful play the board of the room holds, at
  every cell a placement names, a copy of the rack tile with the mover's id and the turn
  number added, and every other cell is as it was: a placement carries no letter, so no
  letter is ever chosen. Wherever a word of the move runs over a joker, placed now or
  earlier, that tile has an empty letter and the value 0, and the scoring step of
  \<open>scoreWord\<close> and \<open>scoreCrossWord\<close> at that cell adds nothing to the letter sum.
\<close>

theorem jokers_stay_blank:
  "(startNewGame env lang room0 = Inr room1 \<longrightarrow> jokersBlank room1) \<and>
   (jokersBlank room \<and> playMove env room pid act pls ids = (room', res) \<longrightarrow> jokersBlank room') \<and>
   (jokersBlank room \<and> game room = Some g \<and>
    findIndex (\<lambda>p. player_id p = who) (players room) = Some idx \<and>
    playMove env room who Play (Some ps) ids' = (room2, Inr (mv, ended)) \<longrightarrow>
      (\<exists>g2. game room2 = Some g2 \<and>
         (\<forall>c \<in> set boardCoords.
             tile (cellAt (board g2) (fst c) (snd c)) =
               (if newlyPlaced ps c
                then map_option (onBoard who (version g + 1))
                       (scoredTile (board g) (rack (players room ! idx)) ps c)
                else tile (cellAt (board g) (fst c) (snd c)))) \<and>
         (\<forall>c \<in> set boardCoords. \<forall>t.
             scoredTile (board g) (rack (players room ! idx)) ps c = Some t \<and> isJoker t \<longrightarrow>
               letter t = [] \<and> tile_value t = 0 \<and>
               (\<forall>s w. scoreStep (board g) ps (buildPlacementInfo (rack (players room ! idx)) ps) c (s, w)
                        = (s, w * wordMultiplier (board g) ps c)))))"
proof (intro conjI impI)
  assume "startNewGame env lang room0 = Inr room1"
  then show "jokersBlank room1" by (rule startNewGame_blank)
next
  assume "jokersBlank room \<and> playMove env room pid act pls ids = (room', res)"
  then show "jokersBlank room'" using playMove_blank by blast
next
  assume h: "jokersBlank room \<and> game room = Some g \<and>
    findIndex (\<lambda>p. player_id p = who) (players room) = Some idx \<and>
    playMove env room who Play (Some ps) ids' = (room2, Inr (mv, ended))"
  let ?rk = "rack (players room ! idx)"
  let ?b = "board g"
  from h have jb: "jokersBlank room" and g: "game room = Some g"
    and idx: "findIndex (\<lambda>p. player_id p = who) (players room) = Some idx"
    and pm: "playMove env room who Play (Some ps) ids' = (room2, Inr (mv, ended))"
    by simp_all
  have gb: "list_all (list_all cellBlank) ?b" "boardOK ?b"
    using jb g by (simp_all add: jokersBlank_def gameBlank_def)
  have il: "idx < length (players room)" using findIndex_Some[OF idx] by simp
  have rb: "list_all jokerBlank ?rk"
    using jb il by (simp add: jokersBlank_def list_all_length)
  have dp: "doPlay env room g idx who ps = (room2, Inr (mv, ended))"
    using g idx pm by (auto simp: playMove_def split: if_splits)
  have inr: "\<forall>p \<in> set ps. rackTile ?rk (tileId p) \<noteq> None"
    using doPlay_valid(2)[OF dp] rackTile_defined by (auto simp: checkTiles_None simp del: set_map)
  from play_board[OF gb(2) g idx pm] obtain g2 where g2: "game room2 = Some g2"
    by (metis boardCoords_iff fst_conv snd_conv order_refl zero_less_numeral)
  have cells: "tile (cellAt (board g2) (fst c) (snd c)) =
               (if newlyPlaced ps c
                then map_option (onBoard who (version g + 1)) (scoredTile ?b ?rk ps c)
                else tile (cellAt ?b (fst c) (snd c)))" if "c \<in> set boardCoords" for c
    using play_board[OF gb(2) g idx pm that] g2 by auto
  have jk: "letter t = [] \<and> tile_value t = 0 \<and>
            (\<forall>s w. scoreStep ?b ps (buildPlacementInfo ?rk ps) c (s, w) = (s, w * wordMultiplier ?b ps c))"
    if "c \<in> set boardCoords" "scoredTile ?b ?rk ps c = Some t \<and> isJoker t" for c t
  proof -
    from that have st: "scoredTile ?b ?rk ps c = Some t" and j: "isJoker t" by simp_all
    from scoredTile_blank[OF rb gb(2) gb(1) that(1) st] j
    have "letter t = [] \<and> tile_value t = 0" by (simp add: jokerBlank_def)
    moreover have "\<forall>s w. scoreStep ?b ps (buildPlacementInfo ?rk ps) c (s, w) = (s, w * wordMultiplier ?b ps c)"
      using joker_scores_nothing[OF rb gb(2) gb(1) inr that(1) st j] by blast
    ultimately show ?thesis by blast
  qed
  show "\<exists>g2. game room2 = Some g2 \<and>
         (\<forall>c \<in> set boardCoords.
             tile (cellAt (board g2) (fst c) (snd c)) =
               (if newlyPlaced ps c
                then map_option (onBoard who (version g + 1)) (scoredTile ?b ?rk ps c)
                else tile (cellAt ?b (fst c) (snd c)))) \<and>
         (\<forall>c \<in> set boardCoords. \<forall>t.
             scoredTile ?b ?rk ps c = Some t \<and> isJoker t \<longrightarrow>
               letter t = [] \<and> tile_value t = 0 \<and>
               (\<forall>s w. scoreStep ?b ps (buildPlacementInfo ?rk ps) c (s, w)
                        = (s, w * wordMultiplier ?b ps c)))"
    using g2 cells jk by blast
qed

text \<open>
  Claim C5 as stated fails on the stored letter: the blank played after CAT forms the
  word \<open>CAT?\<close>, and the tile stored at (10,7) has the empty letter of the rack tile.
\<close>

theorem joker_letter_not_stored_counterexample:
  "(case snd (playMove acceptAll catRoom ''a'' Play (Some [place 10 7 ''5'']) None) of
      Inr (mv, e) \<Rightarrow> ms_words mv = [''CAT?''] | Inl x \<Rightarrow> False) \<and>
   rackTile (rack (players catRoom ! 0)) ''5'' = Some (mkTile ''5'' [] 0) \<and>
   isJoker (mkTile ''5'' [] 0) \<and>
   tile (cellAt (board (the (game (fst
      (playMove acceptAll catRoom ''a'' Play (Some [place 10 7 ''5'']) None))))) 10 7) =
     Some \<lparr>tile_id = ''5'', letter = [], tile_value = 0, isJoker = True,
           fromPlayerId = ''a'', turnPlayed = 2\<rparr>"
  by code_simp

theorem jokers_stay_blank_witness:
  "(\<exists>room1. startNewGame acceptAll EN lobby = Inr room1 \<and> jokersBlank room1) \<and>
   jokersBlank catRoom \<and>
   (\<exists>room2 mv ended g2.
      playMove acceptAll catRoom ''a'' Play (Some [place 10 7 ''5'']) None = (room2, Inr (mv, ended)) \<and>
      jokersBlank room2 \<and> game room2 = Some g2 \<and>
      tile (cellAt (board g2) 10 7) = Some (onBoard ''a'' 2 (mkTile ''5'' [] 0)) \<and>
      tile (cellAt (board g2) 9 7) = tile (cellAt catBoard 9 7)) \<and>
   scoreStep catBoard [place 10 7 ''5'']
     (buildPlacementInfo (rack (players catRoom ! 0)) [place 10 7 ''5'']) (10, 7) (5, 1) = (5, 1)"
proof -
  let ?ps = "[place 10 7 ''5'']"
  let ?rk = "rack (players catRoom ! 0)"
  have "case startNewGame acceptAll EN lobby of Inr r \<Rightarrow> True | Inl e \<Rightarrow> False"
    by code_simp
  then obtain room1 where s: "startNewGame acceptAll EN lobby = Inr room1"
    by (auto split: sum.splits)
  have A: "\<exists>room1. startNewGame acceptAll EN lobby = Inr room1 \<and> jokersBlank room1"
    using jokers_stay_blank[THEN conjunct1, THEN mp, OF s] s by blast
  have jb: "jokersBlank catRoom" by code_simp
  have "case snd (playMove acceptAll catRoom ''a'' Play (Some ?ps) None) of
          Inr (m, e) \<Rightarrow> True | Inl x \<Rightarrow> False"
    by code_simp
  then obtain room2 mv ended where
    pm: "playMove acceptAll catRoom ''a'' Play (Some ?ps) None = (room2, Inr (mv, ended))"
    by (cases "playMove acceptAll catRoom ''a'' Play (Some ?ps) None") (auto split: sum.splits)
  have B: "jokersBlank room2"
    using jokers_stay_blank[THEN conjunct2, THEN conjunct1, THEN mp, OF conjI[OF jb pm]] .
  have g: "game catRoom = Some (the (game catRoom))" by (simp add: catRoom_def mkRoom_def)
  have idx: "findIndex (\<lambda>p. player_id p = ''a'') (players catRoom) = Some 0"
    by (simp add: catRoom_def mkRoom_def mkPlayer_def)
  have bd: "board (the (game catRoom)) = catBoard" and vs: "version (the (game catRoom)) = 1"
    by (simp_all add: catRoom_def mkRoom_def)
  from jokers_stay_blank[THEN conjunct2, THEN conjunct2, THEN mp,
      OF conjI[OF jb conjI[OF g conjI[OF idx pm]]]]
  obtain g2 where g2: "game room2 = Some g2"
    and cells: "\<forall>c \<in> set boardCoords.
             tile (cellAt (board g2) (fst c) (snd c)) =
               (if newlyPlaced ?ps c
                then map_option (onBoard ''a'' (version (the (game catRoom)) + 1))
                       (scoredTile (board (the (game catRoom))) ?rk ?ps c)
                else tile (cellAt (board (the (game catRoom))) (fst c) (snd c)))"
    and jk: "\<forall>c \<in> set boardCoords. \<forall>t.
             scoredTile (board (the (game catRoom))) ?rk ?ps c = Some t \<and> isJoker t \<longrightarrow>
               letter t = [] \<and> tile_value t = 0 \<and>
               (\<forall>s w. scoreStep (board (the (game catRoom))) ?ps (buildPlacementInfo ?rk ?ps) c (s, w)
                        = (s, w * wordMultiplier (board (the (game catRoom))) ?ps c))"
    by blast
  have m1: "(10, 7) \<in> set boardCoords" and m2: "(9, 7) \<in> set boardCoords" by code_simp+
  have np1: "newlyPlaced ?ps (10, 7)" and np2: "\<not> newlyPlaced ?ps (9, 7)" by code_simp+
  have st: "scoredTile catBoard ?rk ?ps (10, 7) = Some (mkTile ''5'' [] 0)" by code_simp
  have ij: "isJoker (mkTile ''5'' [] 0)" by (simp add: mkTile_def)
  have wm: "wordMultiplier catBoard ?ps (10, 7) = 1" by code_simp
  have C1: "tile (cellAt (board g2) 10 7) = Some (onBoard ''a'' 2 (mkTile ''5'' [] 0))"
    using cells[THEN bspec, OF m1] np1 st by (simp add: bd vs)
  have C2: "tile (cellAt (board g2) 9 7) = tile (cellAt catBoard 9 7)"
    using cells[THEN bspec, OF m2] np2 by (simp add: bd)
  have D: "scoreStep catBoard ?ps (buildPlacementInfo ?rk ?ps) (10, 7) (5, 1) = (5, 1)"
    using jk[THEN bspec, OF m1, THEN spec, of "mkTile ''5'' [] 0"] st ij wm by (simp add: bd)
  from A jb pm B g2 C1 C2 D show ?thesis by blast
qed

subsection \<open>Total score of a single-tile play\<close>

text \<open>
  Claim C1. A single tile G (2 points) is placed at (8,8), a double-letter cell, under the
  A (1 point) of CAT. The only word formed is the column AG, whose score by the formula
  is 1 + 2 * 2 = 5, and no bonus of 50 is due for one tile; the move scores 9, because
  the one-cell row span through the tile, which is no word, is scored as the main word
  (2 * 2 = 4) and added to the total.
\<close>

theorem degenerate_span_added_to_total:
  "(case snd (playMove acceptAll catRoom ''a'' Play (Some [place 8 8 ''3'']) None) of
      Inr (mv, e) \<Rightarrow> ms_words mv = [''AG''] \<and> ms_score mv = 9
    | Inl e \<Rightarrow> False) \<and>
   wordScore catBoard (rack (players catRoom ! 0)) [place 8 8 ''3''] [(8, 7), (8, 8)] = 5 \<and>
   length [place 8 8 ''3''] = 1"
  by code_simp

subsection \<open>Coordinates that are not integers\<close>

text \<open>
  Claim C3. On the opening move the placement \<open>{x: 1.5, y: 7}\<close> passes the bounds test of
  the second check, and the test for an empty cell then reads \<open>game.board[7][1.5].tile\<close>:
  the play ends in a \<open>TypeError\<close>, which is the error of none of the eight checks, and
  the submitter is sent its message as the reason.
\<close>

theorem fractional_coordinate_type_error:
  "snd (playMove acceptAll openingRoom ''a'' Play (Some [place (3 / 2) 7 ''1'']) None) = Inl TYPE_ERROR \<and>
   snd (handlePlayMove acceptAll (storeOf openingRoom) ''s_a'' (playPayload [place (3 / 2) 7 ''1'']))
     = [(ToSocket ''s_a'', InvalidMove ''ROOM'' (errorMessage TYPE_ERROR))]"
  by code_simp

end
